theory Spec2Isabelle
  imports Complex_Main "HOL-Library.Log_Nat"
begin

section \<open>Data model of the Radiothermostat accessory\<close>

text \<open>
  The accessory class of \<^verbatim>\<open>src/src/index.ts\<close> (class \<^verbatim>\<open>Radiothermostat\<close>; the older copy in
  \<^verbatim>\<open>src/src/radiothermostat.ts\<close> has the same accessors with the poll interval fixed at 5000).

  A number held in a field (a time, a mode, a temperature read from the device) is carried as
  the real value of a finite JavaScript number. Times are milliseconds since the epoch, as
  \<^verbatim>\<open>Date.getTime()\<close> returns them: integers far below \<open>2 ^ 53\<close>, whose differences and
  comparisons are exact. The only other arithmetic of the class is the temperature
  conversion; it is given twice below, as the exact formula and in the binary64 arithmetic
  in which the code evaluates it.
\<close>

type_synonym number = real

text \<open>Values of fields typed \<^verbatim>\<open>any\<close> that may hold a string, a number or nothing.\<close>

datatype jsvalue = Undefined | Num number | Str string

text \<open>
  \<^verbatim>\<open>CommunicationFailure\<close> is \<^verbatim>\<open>HapStatusError(SERVICE_COMMUNICATION_FAILURE)\<close>, thrown by
  \<^verbatim>\<open>request\<close> and by the constructor; \<^verbatim>\<open>TypeError\<close> is the error of reading a property of
  \<^verbatim>\<open>undefined\<close> and of a \<^verbatim>\<open>fetch\<close> that fails; \<^verbatim>\<open>SyntaxError\<close> is the error of a body that is
  not JSON.
\<close>

datatype error = CommunicationFailure | TypeError | SyntaxError

text \<open>
  The constants of the host library that the code compares against
  (\<^verbatim>\<open>Characteristic.TargetHeatingCoolingState\<close>, \<^verbatim>\<open>Characteristic.Active\<close>,
  \<^verbatim>\<open>Characteristic.TemperatureDisplayUnits\<close>); the device uses the same encoding for
  \<^verbatim>\<open>tmode\<close> (0 off, 1 heat, 2 cool, 3 auto).
\<close>

definition OFF :: number where "OFF = 0"
definition HEAT :: number where "HEAT = 1"
definition COOL :: number where "COOL = 2"
definition AUTO :: number where "AUTO = 3"
definition INACTIVE :: number where "INACTIVE = 0"
definition FAHRENHEIT :: number where "FAHRENHEIT = 1"

text \<open>The decoded reply of \<^verbatim>\<open>GET /tstat\<close>: the fields the accessors read.\<close>

record tstat =
  tstate :: number
  tmode :: number
  temp :: number
  t_heat :: number
  t_cool :: number
  fstate :: number

text \<open>
  A call of \<^verbatim>\<open>fetch\<close>: the URL, the method and the body. Every body the code sends is a JSON
  object with one numeric member, kept here as the member's name and value.
\<close>

datatype http_request = Request string string "(string \<times> number) option"

record thermostatConfig =
  name :: string
  base_url :: "string option"
  min_poll_interval :: "number option"
  enable_fan_interface :: "bool option"

text \<open>
  The instance fields of the class. The snapshot objects decoded from the device live in
  \<open>objects\<close>, a store from references to records: \<open>getStateCache\<close> holds a reference, and
  so does the value \<^verbatim>\<open>getState\<close> returns, so that an assignment through the returned
  reference is seen through the cache. \<open>sent\<close> is the trace of \<^verbatim>\<open>fetch\<close> calls and \<open>pushed\<close>
  the trace of \<^verbatim>\<open>updateValue\<close> calls on the host's characteristics; \<open>humidityRegistered\<close>
  records that \<^verbatim>\<open>registerHumidity\<close> has bound the humidity getter.
\<close>

record accessory =
  config :: thermostatConfig
  lastGetStateTime :: number
  getStateCache :: "nat option"
  getStateInProgress :: bool
  model :: jsvalue
  sysInfo :: "(jsvalue \<times> jsvalue) option"
  objects :: "nat \<Rightarrow> tstat option"
  nextRef :: nat
  humidityRegistered :: bool
  sent :: "http_request list"
  pushed :: "(string \<times> jsvalue) list"

text \<open>
  What the environment supplies to one run of an accessor: the clock reading of
  \<^verbatim>\<open>new Date()\<close> and the outcome of each kind of request the accessor may await. The replies
  are decoded as the device protocol lays them out.
\<close>

record env =
  clock :: number
  tstat_reply :: "error + tstat"
  post_reply :: "error + unit"
  model_reply :: "error + jsvalue"
  humidity_reply :: "error + number option"
  sys_reply :: "error + jsvalue \<times> jsvalue"

section \<open>Temperature conversion\<close>

definition fahrenheitToCelsius :: "number \<Rightarrow> number" where
  "fahrenheitToCelsius fahrenheit = (fahrenheit - 32) * 5 / 9"

definition celsiusToFahrenheit :: "number \<Rightarrow> number" where
  "celsiusToFahrenheit celsius = celsius * 9 / 5 + 32"

text \<open>\<^verbatim>\<open>Math.round\<close>: the nearest integer, a tie going up.\<close>

definition Math_round :: "number \<Rightarrow> number" where
  "Math_round x = of_int \<lfloor>x + 1 / 2\<rfloor>"

subsection \<open>The conversions in binary64 arithmetic\<close>

text \<open>
  The two definitions above are the formulas of the code read over the reals; the accessors
  below apply them to the real value of their argument. The code evaluates the same
  formulas on JavaScript numbers, which are IEEE 754 binary64 values: each of the three
  operations of a conversion returns the exact result rounded to the nearest representable
  number. This subsection writes that evaluation out.

  A binary64 value is a finite number, one of the two infinities, or NaN. A finite value is
  carried as the real it denotes (the two zeros are not told apart: neither conversion
  divides by its argument).
\<close>

datatype double = Finite real | PosInf | NegInf | NaN

text \<open>Rounding to the nearest integer, a tie going to the even one.\<close>

definition rne :: "real \<Rightarrow> int" where
  "rne z =
     (let f = \<lfloor>z\<rfloor>; r = z - of_int f
      in if r < 1 / 2 then f else if 1 / 2 < r then f + 1 else if even f then f else f + 1)"

text \<open>
  \<open>exponent y\<close> is the integer \<open>e\<close> with \<open>2 powi e \<le> \<bar>y\<bar> < 2 powi (e + 1)\<close>, for \<open>y\<close> other
  than 0; it is computed from the bit length of the integer part of \<open>\<bar>y\<bar>\<close>, or of its
  reciprocal.
\<close>

definition exponent :: "real \<Rightarrow> int" where
  "exponent y =
     (if 1 \<le> \<bar>y\<bar> then bitlen \<lfloor>\<bar>y\<bar>\<rfloor> - 1 else - bitlen (\<lceil>1 / \<bar>y\<bar>\<rceil> - 1))"

text \<open>
  The rounding of an exact result \<open>y\<close> to binary64: to the nearest multiple of
  \<open>2 powi (e - 52)\<close>, where \<open>e\<close> is the exponent of \<open>y\<close> and at least \<open>- 1022\<close> (below that the
  spacing of the subnormal numbers stays); a tie goes to the even multiple; a rounded value
  of magnitude \<open>2 powi 1024\<close> or more is the infinity of the sign of \<open>y\<close>.
\<close>

definition binary64 :: "real \<Rightarrow> double" where
  "binary64 y =
     (if y = 0 then Finite 0
      else
        let e = max (exponent y) (- 1022);
            q = 2 powi (e - 52);
            v = of_int (rne (y / q)) * q
        in if 2 powi 1024 \<le> \<bar>v\<bar> then (if 0 < y then PosInf else NegInf) else Finite v)"

text \<open>
  One operation of a conversion: its other operand is a positive constant (32, 5 or 9), so an
  infinity stays the same infinity and NaN stays NaN; on a finite operand the exact result
  is rounded.
\<close>

definition affine :: "(real \<Rightarrow> real) \<Rightarrow> double \<Rightarrow> double" where
  "affine f x =
     (case x of Finite a \<Rightarrow> binary64 (f a) | PosInf \<Rightarrow> PosInf | NegInf \<Rightarrow> NegInf | NaN \<Rightarrow> NaN)"

text \<open>
  \<^verbatim>\<open>(fahrenheit - 32) * 5/9\<close> and \<^verbatim>\<open>celsius * 9/5 + 32\<close>, evaluated from left to right as
  JavaScript does.
\<close>

definition fahrenheitToCelsius64 :: "double \<Rightarrow> double" where
  "fahrenheitToCelsius64 fahrenheit =
     affine (\<lambda>v. v / 9) (affine (\<lambda>v. v * 5) (affine (\<lambda>v. v - 32) fahrenheit))"

definition celsiusToFahrenheit64 :: "double \<Rightarrow> double" where
  "celsiusToFahrenheit64 celsius =
     affine (\<lambda>v. v + 32) (affine (\<lambda>v. v / 5) (affine (\<lambda>v. v * 9) celsius))"

section \<open>Device client\<close>

text \<open>
  \<^verbatim>\<open>request\<close> calls \<^verbatim>\<open>fetch\<close> on \<^verbatim>\<open>base_url + uri\<close> (\<open>send\<close>) and, once awaited, hands
  back the outcome the environment gives: the decoded body, or the failure thrown for a
  status that is not ok. A caller that does not await the promise only performs the \<open>send\<close>.
\<close>

definition url_of :: "accessory \<Rightarrow> string \<Rightarrow> string" where
  "url_of a uri = (case base_url (config a) of None \<Rightarrow> ''undefined'' | Some b \<Rightarrow> b) @ uri"

definition send :: "accessory \<Rightarrow> string \<Rightarrow> string \<Rightarrow> (string \<times> number) option \<Rightarrow> accessory" where
  "send a uri meth body = a\<lparr>sent := sent a @ [Request (url_of a uri) meth body]\<rparr>"

definition request ::
  "(error + 'r) \<Rightarrow> accessory \<Rightarrow> string \<Rightarrow> string \<Rightarrow> (string \<times> number) option
     \<Rightarrow> (error + 'r) \<times> accessory" where
  "request reply a uri meth body = (reply, send a uri meth body)"

section \<open>The state cache\<close>

text \<open>
  The wait loop of \<^verbatim>\<open>getState\<close>. While an accessor runs alone nothing clears the flag during
  the sleep, so the loop returns exactly when the flag is clear on entry.
\<close>

partial_function (option) awaitGate :: "accessory \<Rightarrow> unit option" where
  "awaitGate a = (if getStateInProgress a then awaitGate a else Some ())"

text \<open>The test of the age of the cache; a comparison with an absent interval is false.\<close>

definition stale :: "accessory \<Rightarrow> number \<Rightarrow> bool" where
  "stale a currentTime =
     (case min_poll_interval (config a) of
        None \<Rightarrow> False
      | Some i \<Rightarrow> currentTime - lastGetStateTime a > i)"

text \<open>
  The part of \<^verbatim>\<open>getState\<close> that runs when the awaited request settles. A decoded reply is a
  new object of the store.
\<close>

definition getState_settle ::
  "number \<Rightarrow> (error + tstat) \<Rightarrow> accessory \<Rightarrow> (error + nat option) \<times> accessory" where
  "getState_settle currentTime reply a =
     (case reply of
        Inl err \<Rightarrow> (Inl err, a\<lparr>getStateInProgress := False\<rparr>)
      | Inr data \<Rightarrow>
          let r = nextRef a;
              a1 = a\<lparr>objects := (objects a)(r := Some data), nextRef := Suc r,
                     getStateCache := Some r\<rparr>;
              a2 = a1\<lparr>lastGetStateTime := currentTime\<rparr>;
              a3 = a2\<lparr>getStateInProgress := False\<rparr>
          in (Inr (getStateCache a3), a3))"

text \<open>The body of \<^verbatim>\<open>getState\<close> after the wait loop.\<close>

definition getState_body :: "env \<Rightarrow> accessory \<Rightarrow> (error + nat option) \<times> accessory" where
  "getState_body e a =
     (let currentTime = clock e in
      if stale a currentTime then
        (let a1 = a\<lparr>getStateInProgress := True\<rparr>;
             (reply, a2) = request (tstat_reply e) a1 ''/tstat'' ''GET'' None
         in getState_settle currentTime reply a2)
      else (Inr (getStateCache a), a))"

text \<open>\<open>None\<close>: the call never returns.\<close>

definition getState :: "env \<Rightarrow> accessory \<Rightarrow> ((error + nat option) \<times> accessory) option" where
  "getState e a = (case awaitGate a of None \<Rightarrow> None | Some _ \<Rightarrow> Some (getState_body e a))"

text \<open>Reading through a reference; \<^verbatim>\<open>undefined\<close> has no fields.\<close>

definition load :: "accessory \<Rightarrow> nat option \<Rightarrow> tstat option" where
  "load a state = (case state of None \<Rightarrow> None | Some r \<Rightarrow> objects a r)"

definition cached :: "accessory \<Rightarrow> tstat option" where
  "cached a = load a (getStateCache a)"

text \<open>
  \<^verbatim>\<open>await this.getState()\<close> followed by the first property read of the result: the reference
  and the object behind it, or the \<^verbatim>\<open>TypeError\<close> of reading a field of \<^verbatim>\<open>undefined\<close>. No
  accessor does anything between the two but log.
\<close>

definition getStateObject ::
  "env \<Rightarrow> accessory \<Rightarrow> ((error + nat \<times> tstat) \<times> accessory) option" where
  "getStateObject e a =
     (case getState e a of
        None \<Rightarrow> None
      | Some (Inl err, a1) \<Rightarrow> Some (Inl err, a1)
      | Some (Inr state, a1) \<Rightarrow>
          (case state of
             None \<Rightarrow> Some (Inl TypeError, a1)
           | Some r \<Rightarrow>
               (case objects a1 r of
                  None \<Rightarrow> Some (Inl TypeError, a1)
                | Some data \<Rightarrow> Some (Inr (r, data), a1))))"

section \<open>Accessory information\<close>

definition onGetModel :: "env \<Rightarrow> accessory \<Rightarrow> jsvalue \<times> accessory" where
  "onGetModel e a =
     (if model a = Undefined then
        (case request (model_reply e) a ''/tstat/model'' ''GET'' None of
           (Inr m, a1) \<Rightarrow> (m, a1\<lparr>model := m\<rparr>)
         | (Inl err, a1) \<Rightarrow> (Str ''unknown'', a1\<lparr>model := Str ''unknown''\<rparr>))
      else (model a, a))"

definition getInfo :: "env \<Rightarrow> accessory \<Rightarrow> (jsvalue \<times> jsvalue) \<times> accessory" where
  "getInfo e a =
     (case sysInfo a of
        None \<Rightarrow>
          (case request (sys_reply e) a ''/sys'' ''GET'' None of
             (Inr (uuid, fw_version), a1) \<Rightarrow>
               ((uuid, fw_version), a1\<lparr>sysInfo := Some (uuid, fw_version)\<rparr>)
           | (Inl err, a1) \<Rightarrow>
               ((Str ''unknown'', Str ''unknown''),
                a1\<lparr>sysInfo := Some (Str ''unknown'', Str ''unknown'')\<rparr>))
      | Some info \<Rightarrow> (info, a))"

definition onGetSerialNumber :: "env \<Rightarrow> accessory \<Rightarrow> jsvalue \<times> accessory" where
  "onGetSerialNumber e a = (case getInfo e a of ((serialNumber, firmware), a1) \<Rightarrow> (serialNumber, a1))"

definition onGetFirmware :: "env \<Rightarrow> accessory \<Rightarrow> jsvalue \<times> accessory" where
  "onGetFirmware e a = (case getInfo e a of ((serialNumber, firmware), a1) \<Rightarrow> (firmware, a1))"

section \<open>Thermostat service\<close>

definition onCurrentHeatingCoolingStateGet ::
  "env \<Rightarrow> accessory \<Rightarrow> ((error + number) \<times> accessory) option" where
  "onCurrentHeatingCoolingStateGet e a =
     (case getStateObject e a of
        None \<Rightarrow> None
      | Some (Inl err, a1) \<Rightarrow> Some (Inl err, a1)
      | Some (Inr (r, data), a1) \<Rightarrow> Some (Inr (tstate data), a1))"

text \<open>
  The two \<^verbatim>\<open>if\<close> statements of the AUTO branch, run on the object behind \<^verbatim>\<open>state\<close>: the
  \<^verbatim>\<open>else\<close> belongs to the second \<^verbatim>\<open>if\<close>.
\<close>

definition resolveAuto :: "tstat \<Rightarrow> tstat" where
  "resolveAuto state =
     (let state1 = (if temp state < 60 then state\<lparr>tmode := HEAT\<rparr> else state)
      in if temp state1 > 85 then state1\<lparr>tmode := COOL\<rparr> else state1\<lparr>tmode := OFF\<rparr>)"

text \<open>
  \<^verbatim>\<open>state\<close> is the reference \<^verbatim>\<open>getState\<close> returned, so the assignments to \<^verbatim>\<open>state.tmode\<close>
  are written to the store at that reference.
\<close>

definition onTargetHeatingCoolingStateGet ::
  "env \<Rightarrow> accessory \<Rightarrow> ((error + number) \<times> accessory) option" where
  "onTargetHeatingCoolingStateGet e a =
     (case getStateObject e a of
        None \<Rightarrow> None
      | Some (Inl err, a1) \<Rightarrow> Some (Inl err, a1)
      | Some (Inr (r, data), a1) \<Rightarrow>
          if tmode data = AUTO then
            (let state = resolveAuto data;
                 a2 = a1\<lparr>objects := (objects a1)(r := Some state)\<rparr>
             in case request (post_reply e) a2 ''/tstat'' ''POST'' (Some (''tmode'', tmode state)) of
                  (Inl err, a3) \<Rightarrow> Some (Inl err, a3)
                | (Inr ok, a3) \<Rightarrow> Some (Inr (tmode state), a3))
          else Some (Inr (tmode data), a1))"

definition onTargetTemperatureGet ::
  "env \<Rightarrow> accessory \<Rightarrow> ((error + number) \<times> accessory) option" where
  "onTargetTemperatureGet e a =
     (case getStateObject e a of
        None \<Rightarrow> None
      | Some (Inl err, a1) \<Rightarrow> Some (Inl err, a1)
      | Some (Inr (r, state), a1) \<Rightarrow>
          let targetTemp = (if tmode state = HEAT then t_heat state
                            else if tmode state = COOL then t_cool state
                            else temp state)
          in Some (Inr (fahrenheitToCelsius targetTemp), a1))"

definition onTargetHeatingCoolingStateSet ::
  "number \<Rightarrow> env \<Rightarrow> accessory \<Rightarrow> ((error + unit) \<times> accessory) option" where
  "onTargetHeatingCoolingStateSet targetState e a =
     (case request (post_reply e) a ''/tstat'' ''POST'' (Some (''tmode'', targetState)) of
        (Inl err, a1) \<Rightarrow> Some (Inl err, a1)
      | (Inr ok, a1) \<Rightarrow>
          (case onTargetTemperatureGet e a1 of
             None \<Rightarrow> None
           | Some (Inl err, a2) \<Rightarrow> Some (Inl err, a2)
           | Some (Inr t, a2) \<Rightarrow>
               Some (Inr (), a2\<lparr>pushed := pushed a2 @ [(''TargetTemperature'', Num t)]\<rparr>)))"

definition onCurrentTemperatureGet ::
  "env \<Rightarrow> accessory \<Rightarrow> ((error + number) \<times> accessory) option" where
  "onCurrentTemperatureGet e a =
     (case getStateObject e a of
        None \<Rightarrow> None
      | Some (Inl err, a1) \<Rightarrow> Some (Inl err, a1)
      | Some (Inr (r, data), a1) \<Rightarrow> Some (Inr (fahrenheitToCelsius (temp data)), a1))"

text \<open>
  The two requests of \<^verbatim>\<open>onTargetTemperatureSet\<close> are started and not awaited: the accessor
  returns without looking at their outcome.
\<close>

definition onTargetTemperatureSet ::
  "number \<Rightarrow> env \<Rightarrow> accessory \<Rightarrow> ((error + unit) \<times> accessory) option" where
  "onTargetTemperatureSet targetTempCelsius e a =
     (let targetTemp = Math_round (celsiusToFahrenheit targetTempCelsius) in
      case getStateObject e a of
        None \<Rightarrow> None
      | Some (Inl err, a1) \<Rightarrow> Some (Inl err, a1)
      | Some (Inr (r, state), a1) \<Rightarrow>
          if tmode state = HEAT then
            Some (Inr (), send a1 ''/tstat'' ''POST'' (Some (''t_heat'', targetTemp)))
          else if tmode state = COOL then
            Some (Inr (), send a1 ''/tstat'' ''POST'' (Some (''t_cool'', targetTemp)))
          else Some (Inr (), a1))"

definition onTemperatureDisplayUnitsGet :: "accessory \<Rightarrow> number \<times> accessory" where
  "onTemperatureDisplayUnitsGet a = (FAHRENHEIT, a)"

definition onTemperatureDisplayUnitsSet :: "number \<Rightarrow> accessory \<Rightarrow> accessory" where
  "onTemperatureDisplayUnitsSet v a = a"

text \<open>
  The humidity read. The reply's \<^verbatim>\<open>humidity\<close> member is a number or absent; the chained
  assignment stores it in \<^verbatim>\<open>this.model\<close> as well.
\<close>

definition onCurrentRelativeHumidityGet ::
  "env \<Rightarrow> accessory \<Rightarrow> (error + number option) \<times> accessory" where
  "onCurrentRelativeHumidityGet e a =
     (case request (humidity_reply e) a ''/tstat/humidity'' ''GET'' None of
        (Inl err, a1) \<Rightarrow> (Inl err, a1)
      | (Inr humidity, a1) \<Rightarrow>
          (Inr humidity,
           a1\<lparr>model := (case humidity of None \<Rightarrow> Undefined | Some h \<Rightarrow> Num h)\<rparr>))"

definition registerHumidity :: "env \<Rightarrow> accessory \<Rightarrow> (error + unit) \<times> accessory" where
  "registerHumidity e a =
     (case onCurrentRelativeHumidityGet e a of
        (Inl err, a1) \<Rightarrow> (Inl err, a1)
      | (Inr humidity, a1) \<Rightarrow>
          (case humidity of
             None \<Rightarrow> (Inr (), a1)
           | Some h \<Rightarrow> if h \<ge> 0 then (Inr (), a1\<lparr>humidityRegistered := True\<rparr>) else (Inr (), a1)))"

section \<open>Fan service\<close>

definition onFanActiveGet :: "env \<Rightarrow> accessory \<Rightarrow> ((error + number) \<times> accessory) option" where
  "onFanActiveGet e a =
     (case getStateObject e a of
        None \<Rightarrow> None
      | Some (Inl err, a1) \<Rightarrow> Some (Inl err, a1)
      | Some (Inr (r, state), a1) \<Rightarrow> Some (Inr (fstate state), a1))"

definition onFanActiveSet :: "number \<Rightarrow> env \<Rightarrow> accessory \<Rightarrow> (error + unit) \<times> accessory" where
  "onFanActiveSet active e a =
     (let fmode = (if active = INACTIVE then 0 else 2) in
      case request (post_reply e) a ''/tstat'' ''POST'' (Some (''fmode'', fmode)) of
        (Inl err, a1) \<Rightarrow> (Inl err, a1)
      | (Inr ok, a1) \<Rightarrow> (Inr (), a1))"

text \<open>The fan service exists when the constructor found \<^verbatim>\<open>enable_fan_interface\<close> true.\<close>

definition updateFanState :: "env \<Rightarrow> accessory \<Rightarrow> ((error + unit) \<times> accessory) option" where
  "updateFanState e a =
     (case getStateObject e a of
        None \<Rightarrow> None
      | Some (Inl err, a1) \<Rightarrow> Some (Inl err, a1)
      | Some (Inr (r, state), a1) \<Rightarrow>
          if enable_fan_interface (config a1) = Some True
          then Some (Inr (), a1\<lparr>pushed := pushed a1 @ [(''Active'', Num (fstate state))]\<rparr>)
          else Some (Inr (), a1))"

section \<open>The accessor operations as the host invokes them\<close>

datatype operation =
    GetModel | GetSerialNumber | GetFirmware
  | CurrentHeatingCoolingStateGet
  | TargetHeatingCoolingStateGet | TargetHeatingCoolingStateSet number
  | CurrentTemperatureGet
  | TargetTemperatureGet | TargetTemperatureSet number
  | TemperatureDisplayUnitsGet | TemperatureDisplayUnitsSet number
  | CurrentRelativeHumidityGet | RegisterHumidity
  | FanActiveGet | FanActiveSet number | UpdateFanState

text \<open>
  The accessory after one operation has run to its end, whether it returned or threw;
  \<open>None\<close> when it never ends.
\<close>

definition after :: "('v \<times> accessory) option \<Rightarrow> accessory option" where
  "after res = map_option snd res"

fun perform :: "operation \<Rightarrow> env \<Rightarrow> accessory \<Rightarrow> accessory option" where
  "perform GetModel e a = Some (snd (onGetModel e a))"
| "perform GetSerialNumber e a = Some (snd (onGetSerialNumber e a))"
| "perform GetFirmware e a = Some (snd (onGetFirmware e a))"
| "perform CurrentHeatingCoolingStateGet e a = after (onCurrentHeatingCoolingStateGet e a)"
| "perform TargetHeatingCoolingStateGet e a = after (onTargetHeatingCoolingStateGet e a)"
| "perform (TargetHeatingCoolingStateSet v) e a = after (onTargetHeatingCoolingStateSet v e a)"
| "perform CurrentTemperatureGet e a = after (onCurrentTemperatureGet e a)"
| "perform TargetTemperatureGet e a = after (onTargetTemperatureGet e a)"
| "perform (TargetTemperatureSet v) e a = after (onTargetTemperatureSet v e a)"
| "perform TemperatureDisplayUnitsGet e a = Some (snd (onTemperatureDisplayUnitsGet a))"
| "perform (TemperatureDisplayUnitsSet v) e a = Some (onTemperatureDisplayUnitsSet v a)"
| "perform CurrentRelativeHumidityGet e a = Some (snd (onCurrentRelativeHumidityGet e a))"
| "perform RegisterHumidity e a = Some (snd (registerHumidity e a))"
| "perform FanActiveGet e a = after (onFanActiveGet e a)"
| "perform (FanActiveSet v) e a = Some (snd (onFanActiveSet v e a))"
| "perform UpdateFanState e a = after (updateFanState e a)"

section \<open>Overlapping calls of getState\<close>

text \<open>
  JavaScript runs one piece of code at a time and switches only at an \<^verbatim>\<open>await\<close>. A call of
  \<^verbatim>\<open>getState\<close> is therefore in one of four places: at the loop test (just called, or asleep
  between two tests), awaiting its request with the \<^verbatim>\<open>currentTime\<close> it read, returned with
  a reference, or failed.
\<close>

datatype task = AtGate | Awaiting number | Returned "nat option" | Thrown error

text \<open>
  The code from the loop test to the next suspension, at clock reading \<open>now\<close>: with the flag
  set the call goes to sleep; otherwise it either starts the request or returns the cache.
\<close>

definition getState_gate :: "number \<Rightarrow> accessory \<Rightarrow> task \<times> accessory" where
  "getState_gate now a =
     (if getStateInProgress a then (AtGate, a)
      else
        let currentTime = now in
        if stale a currentTime then
          (Awaiting currentTime, send (a\<lparr>getStateInProgress := True\<rparr>) ''/tstat'' ''GET'' None)
        else (Returned (getStateCache a), a))"

definition finished :: "(error + nat option) \<Rightarrow> task" where
  "finished res = (case res of Inl err \<Rightarrow> Thrown err | Inr state \<Rightarrow> Returned state)"

record system =
  acc :: accessory
  tasks :: "task list"
  time :: number

text \<open>
  What can happen next: a new call (it runs to its first suspension at once), a sleeping
  call wakes and tests the flag again, the device answers the request a call awaits, or time
  passes. An event that names no such call changes nothing. The sleeps are not timed: a
  sleeper may wake at any moment, which includes every schedule of the 500 ms timer.
\<close>

datatype event = Call | Wake nat | Reply nat "error + tstat" | Tick number

fun step :: "system \<Rightarrow> event \<Rightarrow> system" where
  "step s Call =
     (case getState_gate (time s) (acc s) of
        (t, a) \<Rightarrow> s\<lparr>acc := a, tasks := tasks s @ [t]\<rparr>)"
| "step s (Wake i) =
     (if i < length (tasks s) \<and> tasks s ! i = AtGate then
        (case getState_gate (time s) (acc s) of
           (t, a) \<Rightarrow> s\<lparr>acc := a, tasks := (tasks s)[i := t]\<rparr>)
      else s)"
| "step s (Reply i reply) =
     (if i < length (tasks s) then
        (case tasks s ! i of
           Awaiting currentTime \<Rightarrow>
             (case getState_settle currentTime reply (acc s) of
                (res, a) \<Rightarrow> s\<lparr>acc := a, tasks := (tasks s)[i := finished res]\<rparr>)
         | _ \<Rightarrow> s)
      else s)"
| "step s (Tick d) = (if d \<ge> 0 then s\<lparr>time := time s + d\<rparr> else s)"

definition run :: "system \<Rightarrow> event list \<Rightarrow> system" where
  "run s es = foldl step s es"

definition awaiting :: "task \<Rightarrow> bool" where
  "awaiting t = (case t of Awaiting currentTime \<Rightarrow> True | _ \<Rightarrow> False)"

definition in_flight :: "system \<Rightarrow> nat" where
  "in_flight s = length (filter awaiting (tasks s))"

text \<open>A call that has come to its end: returned or failed.\<close>

definition ended :: "task \<Rightarrow> bool" where
  "ended t = (case t of Returned state \<Rightarrow> True | Thrown err \<Rightarrow> True | _ \<Rightarrow> False)"

text \<open>The flag is set exactly while one call awaits its request.\<close>

definition gate_inv :: "system \<Rightarrow> bool" where
  "gate_inv s = (in_flight s = (if getStateInProgress (acc s) then 1 else 0))"


text \<open>
  \<open>settled s s'\<close>: from \<open>s\<close> to \<open>s'\<close> the accessory has not changed, no call has
  disappeared, and every call is where it was in \<open>s\<close> or has returned the reference that
  \<open>s\<close> has in its cache.
\<close>

definition settled :: "system \<Rightarrow> system \<Rightarrow> bool" where
  "settled s s' =
     (acc s' = acc s \<and> length (tasks s) \<le> length (tasks s')
      \<and> (\<forall>i < length (tasks s').
            (i < length (tasks s) \<and> tasks s' ! i = tasks s ! i)
            \<or> tasks s' ! i = Returned (getStateCache (acc s))))"

section \<open>Construction\<close>

definition normalize_poll_interval :: "number option \<Rightarrow> number" where
  "normalize_poll_interval v =
     (case v of
        None \<Rightarrow> 5000
      | Some x \<Rightarrow> if x < 3000 then 3000 else if x > 15000 then 15000 else x)"

text \<open>
  The constructor: the configuration checks, the field initialisers, and the three calls it
  starts without awaiting them, each run up to its first \<^verbatim>\<open>await\<close>. \<^verbatim>\<open>getInfo\<close> finds
  \<^verbatim>\<open>sysInfo\<close> undefined and sends \<^verbatim>\<open>GET /sys\<close>; \<^verbatim>\<open>getState\<close> runs its gate step at the clock
  reading \<open>now\<close>, which sets the flag and sends \<^verbatim>\<open>GET /tstat\<close> when the interval has passed
  since the epoch; \<^verbatim>\<open>registerHumidity\<close> sends \<^verbatim>\<open>GET /tstat/humidity\<close>. The registration of the
  services touches none of the fields, and the 15 s timer of the fan service runs the
  operation \<open>UpdateFanState\<close>.
\<close>

definition constructor :: "number \<Rightarrow> thermostatConfig \<Rightarrow> error + accessory" where
  "constructor now cfg =
     (if base_url cfg = None then Inl CommunicationFailure
      else
        let cfg1 = cfg\<lparr>min_poll_interval := Some (normalize_poll_interval (min_poll_interval cfg))\<rparr>;
            cfg2 = (if enable_fan_interface cfg1 = None
                    then cfg1\<lparr>enable_fan_interface := Some False\<rparr> else cfg1);
            a0 = \<lparr>config = cfg2, lastGetStateTime = 0, getStateCache = None,
                  getStateInProgress = False, model = Undefined, sysInfo = None,
                  objects = (\<lambda>r. None), nextRef = 0, humidityRegistered = False,
                  sent = [], pushed = []\<rparr>;
            a1 = send a0 ''/sys'' ''GET'' None;
            a2 = snd (getState_gate now a1);
            a3 = send a2 ''/tstat/humidity'' ''GET'' None
        in Inr a3)"

text \<open>
  What the calls started by the constructor do when their requests are answered: the rest of
  \<^verbatim>\<open>getInfo\<close> and of \<^verbatim>\<open>registerHumidity\<close> after the \<^verbatim>\<open>await\<close> (the rest of \<^verbatim>\<open>getState\<close> is
  \<open>getState_settle\<close>). A failed humidity request leaves \<^verbatim>\<open>registerHumidity\<close> rejected and the
  fields as they were.
\<close>

definition getInfo_settle :: "(error + jsvalue \<times> jsvalue) \<Rightarrow> accessory \<Rightarrow> accessory" where
  "getInfo_settle reply a =
     (case reply of
        Inr (uuid, fw_version) \<Rightarrow> a\<lparr>sysInfo := Some (uuid, fw_version)\<rparr>
      | Inl err \<Rightarrow> a\<lparr>sysInfo := Some (Str ''unknown'', Str ''unknown'')\<rparr>)"

definition registerHumidity_settle :: "(error + number option) \<Rightarrow> accessory \<Rightarrow> accessory" where
  "registerHumidity_settle reply a =
     (case reply of
        Inl err \<Rightarrow> a
      | Inr humidity \<Rightarrow>
          let a1 = a\<lparr>model := (case humidity of None \<Rightarrow> Undefined | Some h \<Rightarrow> Num h)\<rparr>
          in (case humidity of
                None \<Rightarrow> a1
              | Some h \<Rightarrow> if h \<ge> 0 then a1\<lparr>humidityRegistered := True\<rparr> else a1))"

text \<open>
  The accessory once the three requests of the constructor have been answered with the
  replies of \<open>e\<close>; \<open>now\<close> is the clock reading the constructor's \<^verbatim>\<open>getState\<close> took.
\<close>

definition startup :: "number \<Rightarrow> env \<Rightarrow> accessory \<Rightarrow> accessory" where
  "startup now e a =
     (let a1 = getInfo_settle (sys_reply e) a;
          a2 = (if getStateInProgress a1 then snd (getState_settle now (tstat_reply e) a1) else a1)
      in registerHumidity_settle (humidity_reply e) a2)"

text \<open>A sequence of operations, each with what the environment supplies to it.\<close>

fun performs :: "(operation \<times> env) list \<Rightarrow> accessory \<Rightarrow> accessory option" where
  "performs [] a = Some a"
| "performs ((op, e) # ops) a =
     (case perform op e a of None \<Rightarrow> None | Some a1 \<Rightarrow> performs ops a1)"

section \<open>Sample inputs\<close>

text \<open>
  The configuration of the README's sample, the accessory with the fields the constructor
  initialises from it (before it starts its requests), a device state, and the accessory
  once that state has been fetched at time 100000.
\<close>

definition sample_config :: thermostatConfig where
  "sample_config =
     \<lparr>name = ''Thermostat'', base_url = Some ''http://192.169.1.10'',
      min_poll_interval = Some 10000, enable_fan_interface = Some True\<rparr>"

definition new_accessory :: accessory where
  "new_accessory =
     \<lparr>config = sample_config, lastGetStateTime = 0, getStateCache = None,
      getStateInProgress = False, model = Undefined, sysInfo = None,
      objects = (\<lambda>r. None), nextRef = 0, humidityRegistered = False,
      sent = [], pushed = []\<rparr>"

text \<open>The accessory as the constructor returns it at time 200000.\<close>

definition constructed_accessory :: accessory where
  "constructed_accessory =
     new_accessory\<lparr>getStateInProgress := True,
                    sent := [Request ''http://192.169.1.10/sys'' ''GET'' None,
                             Request ''http://192.169.1.10/tstat'' ''GET'' None,
                             Request ''http://192.169.1.10/tstat/humidity'' ''GET'' None]\<rparr>"

definition sample_tstat :: tstat where
  "sample_tstat = \<lparr>tstate = 0, tmode = 1, temp = 70, t_heat = 68, t_cool = 78, fstate = 0\<rparr>"

definition tstat_request :: http_request where
  "tstat_request = Request ''http://192.169.1.10/tstat'' ''GET'' None"

definition polled_accessory :: "tstat \<Rightarrow> accessory" where
  "polled_accessory state =
     new_accessory\<lparr>lastGetStateTime := 100000, getStateCache := Some 0,
                    objects := (\<lambda>r. None)(0 := Some state), nextRef := 1,
                    sent := [tstat_request]\<rparr>"

text \<open>An environment with the given clock reading and answer to \<^verbatim>\<open>GET /tstat\<close>.\<close>

definition sample_env :: "number \<Rightarrow> (error + tstat) \<Rightarrow> env" where
  "sample_env t reply =
     \<lparr>clock = t, tstat_reply = reply, post_reply = Inr (),
      model_reply = Inr (Str ''CT50''), humidity_reply = Inr (Some 45),
      sys_reply = Inr (Str ''5cdad4276ec5'', Str ''1.04.84'')\<rparr>"

text \<open>A device state in AUTO mode at the given temperature.\<close>

definition auto_state :: "number \<Rightarrow> tstat" where
  "auto_state t = \<lparr>tstate = 0, tmode = 3, temp = t, t_heat = 68, t_cool = 78, fstate = 0\<rparr>"

text \<open>A device state whose target mode is OFF.\<close>

definition off_state :: tstat where
  "off_state = \<lparr>tstate = 0, tmode = 0, temp = 70, t_heat = 68, t_cool = 78, fstate = 0\<rparr>"

text \<open>
  A system with no call yet at time 200000, the accessory while its first request is
  awaited, the accessory once that request has failed, the accessory while a second request
  is awaited after that, and the accessory once the first request has been answered with the
  sample state.
\<close>

definition idle_system :: system where
  "idle_system = \<lparr>acc = new_accessory, tasks = [], time = 200000\<rparr>"

definition fetching_accessory :: accessory where
  "fetching_accessory = new_accessory\<lparr>getStateInProgress := True, sent := [tstat_request]\<rparr>"

definition failed_accessory :: accessory where
  "failed_accessory = new_accessory\<lparr>sent := [tstat_request]\<rparr>"

definition refetching_accessory :: accessory where
  "refetching_accessory =
     new_accessory\<lparr>getStateInProgress := True, sent := [tstat_request, tstat_request]\<rparr>"

definition fetched_accessory :: accessory where
  "fetched_accessory =
     new_accessory\<lparr>lastGetStateTime := 200000, getStateCache := Some 0,
                    objects := (\<lambda>r. None)(0 := Some sample_tstat), nextRef := 1,
                    sent := [tstat_request]\<rparr>"

section \<open>Lemmas on the state cache\<close>

lemma awaitGate_open: "\<not> getStateInProgress a \<Longrightarrow> awaitGate a = Some ()"
  by (subst awaitGate.simps) simp

lemma awaitGate_returns:
  assumes "awaitGate a = Some u"
  shows "\<not> getStateInProgress a"
  using assms
proof (induction rule: awaitGate.raw_induct [rotated 1, consumes 1])
  case (1 wait a u)
  then show ?case by (auto split: if_splits)
qed

lemma awaitGate_closed: "getStateInProgress a \<Longrightarrow> awaitGate a = None"
  using awaitGate_returns [of a] by (cases "awaitGate a") auto

lemma getState_open: "\<not> getStateInProgress a \<Longrightarrow> getState e a = Some (getState_body e a)"
  by (simp add: getState_def awaitGate_open)

lemma getState_closed: "getStateInProgress a \<Longrightarrow> getState e a = None"
  by (simp add: getState_def awaitGate_closed)

lemma send_simps [simp]:
  "config (send a uri meth body) = config a"
  "lastGetStateTime (send a uri meth body) = lastGetStateTime a"
  "getStateCache (send a uri meth body) = getStateCache a"
  "getStateInProgress (send a uri meth body) = getStateInProgress a"
  "model (send a uri meth body) = model a"
  "sysInfo (send a uri meth body) = sysInfo a"
  "objects (send a uri meth body) = objects a"
  "nextRef (send a uri meth body) = nextRef a"
  "sent (send a uri meth body) = sent a @ [Request (url_of a uri) meth body]"
  by (simp_all add: send_def)

lemma stale_same:
  "config a' = config a \<Longrightarrow> lastGetStateTime a' = lastGetStateTime a \<Longrightarrow> stale a' t = stale a t"
  by (simp add: stale_def split: option.splits)

lemma stale_later: "stale a t \<Longrightarrow> t \<le> t' \<Longrightarrow> stale a t'"
  by (auto simp: stale_def split: option.splits)

lemma getState_body_fresh:
  "\<not> stale a (clock e) \<Longrightarrow> getState_body e a = (Inr (getStateCache a), a)"
  by (simp add: getState_body_def)

lemma getState_body_failed:
  "stale a (clock e) \<Longrightarrow> tstat_reply e = Inl err \<Longrightarrow>
   getState_body e a =
     (Inl err, (send (a\<lparr>getStateInProgress := True\<rparr>) ''/tstat'' ''GET'' None)
                 \<lparr>getStateInProgress := False\<rparr>)"
  by (simp add: getState_body_def request_def getState_settle_def)

lemma getState_body_refreshed:
  "stale a (clock e) \<Longrightarrow> tstat_reply e = Inr data \<Longrightarrow>
   getState_body e a =
     (Inr (Some (nextRef a)),
      (send (a\<lparr>getStateInProgress := True\<rparr>) ''/tstat'' ''GET'' None)
        \<lparr>objects := (objects a)(nextRef a := Some data), nextRef := Suc (nextRef a),
         getStateCache := Some (nextRef a), lastGetStateTime := clock e,
         getStateInProgress := False\<rparr>)"
  by (simp add: getState_body_def request_def getState_settle_def Let_def)

lemma getState_body_config: "config (snd (getState_body e a)) = config a"
  by (cases "stale a (clock e)"; cases "tstat_reply e")
     (simp_all add: getState_body_fresh getState_body_failed getState_body_refreshed)

lemma getStateObject_closed: "getStateInProgress a \<Longrightarrow> getStateObject e a = None"
  by (simp add: getStateObject_def getState_closed)

lemma getStateObject_config:
  "getStateObject e a = Some (res, a1) \<Longrightarrow> config a1 = config a"
  using getState_body_config [of e a]
  by (cases "getStateInProgress a")
     (auto simp: getStateObject_def getState_closed getState_open
           split: prod.splits sum.splits option.splits)

lemma onGetModel_config: "config (snd (onGetModel e a)) = config a"
  by (cases "model_reply e") (simp_all add: onGetModel_def request_def)

lemma getInfo_config: "config (snd (getInfo e a)) = config a"
  by (cases "sys_reply e") (auto simp: getInfo_def request_def split: option.splits)

lemma onCurrentRelativeHumidityGet_config:
  "config (snd (onCurrentRelativeHumidityGet e a)) = config a"
  by (cases "humidity_reply e") (simp_all add: onCurrentRelativeHumidityGet_def request_def)

lemma registerHumidity_config: "config (snd (registerHumidity e a)) = config a"
  using onCurrentRelativeHumidityGet_config [of e a]
  by (auto simp: registerHumidity_def split: prod.splits sum.splits option.splits)

lemma onFanActiveSet_config: "config (snd (onFanActiveSet v e a)) = config a"
  by (cases "post_reply e") (simp_all add: onFanActiveSet_def request_def)

lemma onTargetTemperatureGet_config:
  "onTargetTemperatureGet e a = Some (res, a1) \<Longrightarrow> config a1 = config a"
  by (auto simp: onTargetTemperatureGet_def Let_def dest: getStateObject_config
           split: option.splits prod.splits sum.splits)

lemma perform_config: "perform op e a = Some a' \<Longrightarrow> config a' = config a"
proof (cases op)
  case GetModel
  then show "perform op e a = Some a' \<Longrightarrow> ?thesis" using onGetModel_config [of e a] by auto
next
  case GetSerialNumber
  then show "perform op e a = Some a' \<Longrightarrow> ?thesis" using getInfo_config [of e a]
    by (auto simp: onGetSerialNumber_def split: prod.splits)
next
  case GetFirmware
  then show "perform op e a = Some a' \<Longrightarrow> ?thesis" using getInfo_config [of e a]
    by (auto simp: onGetFirmware_def split: prod.splits)
next
  case CurrentHeatingCoolingStateGet
  then show "perform op e a = Some a' \<Longrightarrow> ?thesis"
    by (auto simp: after_def onCurrentHeatingCoolingStateGet_def dest: getStateObject_config
             split: option.splits prod.splits sum.splits)
next
  case TargetHeatingCoolingStateGet
  then show "perform op e a = Some a' \<Longrightarrow> ?thesis"
    by (auto simp: after_def onTargetHeatingCoolingStateGet_def request_def Let_def
             dest: getStateObject_config
             split: option.splits prod.splits sum.splits if_splits)
next
  case (TargetHeatingCoolingStateSet v)
  then show "perform op e a = Some a' \<Longrightarrow> ?thesis"
    by (auto simp: after_def onTargetHeatingCoolingStateSet_def request_def
             dest: onTargetTemperatureGet_config
             split: option.splits prod.splits sum.splits)
next
  case CurrentTemperatureGet
  then show "perform op e a = Some a' \<Longrightarrow> ?thesis"
    by (auto simp: after_def onCurrentTemperatureGet_def dest: getStateObject_config
             split: option.splits prod.splits sum.splits)
next
  case TargetTemperatureGet
  then show "perform op e a = Some a' \<Longrightarrow> ?thesis"
    by (auto simp: after_def dest: onTargetTemperatureGet_config)
next
  case (TargetTemperatureSet v)
  then show "perform op e a = Some a' \<Longrightarrow> ?thesis"
    by (auto simp: after_def onTargetTemperatureSet_def Let_def dest: getStateObject_config
             split: option.splits prod.splits sum.splits if_splits)
next
  case TemperatureDisplayUnitsGet
  then show "perform op e a = Some a' \<Longrightarrow> ?thesis" by (auto simp: onTemperatureDisplayUnitsGet_def)
next
  case (TemperatureDisplayUnitsSet v)
  then show "perform op e a = Some a' \<Longrightarrow> ?thesis" by (auto simp: onTemperatureDisplayUnitsSet_def)
next
  case CurrentRelativeHumidityGet
  then show "perform op e a = Some a' \<Longrightarrow> ?thesis"
    using onCurrentRelativeHumidityGet_config [of e a] by auto
next
  case RegisterHumidity
  then show "perform op e a = Some a' \<Longrightarrow> ?thesis" using registerHumidity_config [of e a] by auto
next
  case FanActiveGet
  then show "perform op e a = Some a' \<Longrightarrow> ?thesis"
    by (auto simp: after_def onFanActiveGet_def dest: getStateObject_config
             split: option.splits prod.splits sum.splits)
next
  case (FanActiveSet v)
  then show "perform op e a = Some a' \<Longrightarrow> ?thesis" using onFanActiveSet_config [of v e a] by auto
next
  case UpdateFanState
  then show "perform op e a = Some a' \<Longrightarrow> ?thesis"
    by (auto simp: after_def updateFanState_def dest: getStateObject_config
             split: option.splits prod.splits sum.splits if_splits)
qed

lemma performs_config: "performs ops a = Some a' \<Longrightarrow> config a' = config a"
proof (induction ops arbitrary: a)
  case Nil
  then show ?case by simp
next
  case (Cons x ops)
  obtain op e where x: "x = (op, e)" by (cases x)
  from Cons.prems x obtain a1 where p: "perform op e a = Some a1" and r: "performs ops a1 = Some a'"
    by (auto split: option.splits)
  from Cons.IH [OF r] perform_config [OF p] show ?case by simp
qed

lemma normalize_poll_interval_range:
  "3000 \<le> normalize_poll_interval v \<and> normalize_poll_interval v \<le> 15000"
  by (cases v) (simp_all add: normalize_poll_interval_def)


section \<open>Construction: the poll interval\<close>

lemma getState_gate_config: "config (snd (getState_gate t a)) = config a"
  by (simp add: getState_gate_def Let_def)

lemma getState_settle_config: "config (snd (getState_settle t reply a)) = config a"
  by (cases reply) (simp_all add: getState_settle_def Let_def)

lemma getInfo_settle_config: "config (getInfo_settle reply a) = config a"
  by (cases reply) (auto simp: getInfo_settle_def)

lemma registerHumidity_settle_config: "config (registerHumidity_settle reply a) = config a"
  by (cases reply) (auto simp: registerHumidity_settle_def Let_def split: option.splits)

lemma startup_config: "config (startup now e a) = config a"
  by (simp add: startup_def Let_def registerHumidity_settle_config getState_settle_config
                getInfo_settle_config)

text \<open>
  The continuations are those of the accessors: run alone, \<^verbatim>\<open>getInfo\<close> and
  \<^verbatim>\<open>registerHumidity\<close> are the request followed at once by the rest.
\<close>

lemma getInfo_settles:
  "sysInfo a = None \<Longrightarrow> snd (getInfo e a) = getInfo_settle (sys_reply e) (send a ''/sys'' ''GET'' None)"
  by (cases "sys_reply e") (auto simp: getInfo_def getInfo_settle_def request_def)

lemma registerHumidity_settles:
  "snd (registerHumidity e a)
     = registerHumidity_settle (humidity_reply e) (send a ''/tstat/humidity'' ''GET'' None)"
  by (cases "humidity_reply e")
     (auto simp: registerHumidity_def registerHumidity_settle_def onCurrentRelativeHumidityGet_def
                 request_def Let_def split: option.splits)

lemma constructor_config:
  assumes "constructor now cfg = Inr a"
  shows "min_poll_interval (config a) = Some (normalize_poll_interval (min_poll_interval cfg))"
proof -
  from assms have b: "base_url cfg \<noteq> None" by (auto simp: constructor_def split: if_splits)
  with assms show ?thesis
    by (auto simp: constructor_def Let_def getState_gate_config)
qed

text \<open>
  The constructor leaves the one call of \<^verbatim>\<open>getState\<close> it started: awaiting its request with
  the flag set, or returned with the empty cache.
\<close>

lemma constructor_gate_inv:
  assumes "constructor now cfg = Inr a"
  shows "gate_inv \<lparr>acc = a, tasks = [if getStateInProgress a then Awaiting now else Returned None],
                   time = now\<rparr>"
proof -
  from assms have b: "base_url cfg \<noteq> None" by (auto simp: constructor_def split: if_splits)
  with assms show ?thesis
    by (auto simp: constructor_def Let_def getState_gate_def gate_inv_def in_flight_def awaiting_def)
qed

lemma constructor_sample:
  "constructor 200000 (sample_config\<lparr>min_poll_interval := v\<rparr>)
     = Inr (constructed_accessory
              \<lparr>config := sample_config\<lparr>min_poll_interval := Some (normalize_poll_interval v)\<rparr>\<rparr>)"
proof -
  have "3000 \<le> normalize_poll_interval v" "normalize_poll_interval v \<le> 15000"
    using normalize_poll_interval_range [of v] by simp_all
  then have "normalize_poll_interval v < 200000" by linarith
  then show ?thesis
    by (simp add: constructor_def getState_gate_def stale_def send_def url_of_def
                  sample_config_def new_accessory_def constructed_accessory_def)
qed

text \<open>
  C8. When the constructor succeeds, the poll interval it leaves in the configuration lies
  between 3000 and 15000: 5000 when none was configured, 3000 for a configured value below
  3000, 15000 for one above 15000, and the configured value itself otherwise. No accessor
  operation changes it afterwards, whether it runs on the accessory as the constructor
  returns it or once the requests the constructor started have been answered.
\<close>

theorem constructor_poll_interval:
  assumes "constructor now cfg = Inr a"
  shows "\<exists>i. min_poll_interval (config a) = Some i \<and> 3000 \<le> i \<and> i \<le> 15000
           \<and> (min_poll_interval cfg = None \<longrightarrow> i = 5000)
           \<and> (\<forall>x. min_poll_interval cfg = Some x \<longrightarrow>
                  (x < 3000 \<longrightarrow> i = 3000) \<and> (15000 < x \<longrightarrow> i = 15000)
                  \<and> (3000 \<le> x \<and> x \<le> 15000 \<longrightarrow> i = x))
           \<and> (\<forall>ops a'. performs ops a = Some a' \<longrightarrow> min_poll_interval (config a') = Some i)
           \<and> (\<forall>e ops a'. performs ops (startup now e a) = Some a'
                  \<longrightarrow> min_poll_interval (config a') = Some i)"
proof -
  let ?i = "normalize_poll_interval (min_poll_interval cfg)"
  from assms have c: "min_poll_interval (config a) = Some ?i"
    by (rule constructor_config)
  have "\<forall>ops a'. performs ops a = Some a' \<longrightarrow> min_poll_interval (config a') = Some ?i"
    using c by (auto dest: performs_config)
  moreover have "\<forall>e ops a'. performs ops (startup now e a) = Some a'
                  \<longrightarrow> min_poll_interval (config a') = Some ?i"
    using c by (auto dest: performs_config simp: startup_config)
  moreover have "min_poll_interval cfg = None \<longrightarrow> ?i = 5000"
    by (simp add: normalize_poll_interval_def)
  moreover have "\<forall>x. min_poll_interval cfg = Some x \<longrightarrow>
                  (x < 3000 \<longrightarrow> ?i = 3000) \<and> (15000 < x \<longrightarrow> ?i = 15000)
                  \<and> (3000 \<le> x \<and> x \<le> 15000 \<longrightarrow> ?i = x)"
    by (simp add: normalize_poll_interval_def)
  ultimately show ?thesis
    using c normalize_poll_interval_range [of "min_poll_interval cfg"]
    by (intro exI [of _ ?i]) simp
qed

theorem constructor_poll_interval_witness:
  "constructor 200000 (sample_config\<lparr>min_poll_interval := Some 1000\<rparr>)
     = Inr (constructed_accessory\<lparr>config := sample_config\<lparr>min_poll_interval := Some 3000\<rparr>\<rparr>)
   \<and> constructor 200000 (sample_config\<lparr>min_poll_interval := None\<rparr>)
     = Inr (constructed_accessory\<lparr>config := sample_config\<lparr>min_poll_interval := Some 5000\<rparr>\<rparr>)
   \<and> constructor 200000 (sample_config\<lparr>min_poll_interval := Some 20000\<rparr>)
     = Inr (constructed_accessory\<lparr>config := sample_config\<lparr>min_poll_interval := Some 15000\<rparr>\<rparr>)
   \<and> constructor 200000 sample_config = Inr constructed_accessory
   \<and> getStateInProgress constructed_accessory
   \<and> sent constructed_accessory
       = [Request ''http://192.169.1.10/sys'' ''GET'' None,
          Request ''http://192.169.1.10/tstat'' ''GET'' None,
          Request ''http://192.169.1.10/tstat/humidity'' ''GET'' None]
   \<and> (\<exists>i. min_poll_interval
              (config (constructed_accessory\<lparr>config := sample_config\<lparr>min_poll_interval := Some 3000\<rparr>\<rparr>))
            = Some i \<and> i = 3000)
   \<and> (\<exists>i. min_poll_interval
              (config (constructed_accessory\<lparr>config := sample_config\<lparr>min_poll_interval := Some 5000\<rparr>\<rparr>))
            = Some i \<and> i = 5000)
   \<and> (\<exists>i. min_poll_interval
              (config (constructed_accessory\<lparr>config := sample_config\<lparr>min_poll_interval := Some 15000\<rparr>\<rparr>))
            = Some i \<and> i = 15000)
   \<and> (\<exists>i. min_poll_interval (config constructed_accessory) = Some i \<and> 3000 \<le> i \<and> i \<le> 15000
          \<and> i = 10000
          \<and> min_poll_interval
                (config (snd (onGetModel (sample_env 205000 (Inr sample_tstat)) constructed_accessory)))
              = Some i
          \<and> min_poll_interval
                (config (snd (onGetModel (sample_env 205000 (Inr sample_tstat))
                   (startup 200000 (sample_env 205000 (Inr sample_tstat)) constructed_accessory))))
              = Some i)"
proof -
  let ?e = "sample_env 205000 (Inr sample_tstat)"
  have c1: "constructor 200000 (sample_config\<lparr>min_poll_interval := Some 1000\<rparr>)
     = Inr (constructed_accessory\<lparr>config := sample_config\<lparr>min_poll_interval := Some 3000\<rparr>\<rparr>)"
    by (simp add: constructor_sample normalize_poll_interval_def)
  have c2: "constructor 200000 (sample_config\<lparr>min_poll_interval := None\<rparr>)
     = Inr (constructed_accessory\<lparr>config := sample_config\<lparr>min_poll_interval := Some 5000\<rparr>\<rparr>)"
    by (simp add: constructor_sample normalize_poll_interval_def)
  have c3: "constructor 200000 (sample_config\<lparr>min_poll_interval := Some 20000\<rparr>)
     = Inr (constructed_accessory\<lparr>config := sample_config\<lparr>min_poll_interval := Some 15000\<rparr>\<rparr>)"
    by (simp add: constructor_sample normalize_poll_interval_def)
  have "constructor 200000 (sample_config\<lparr>min_poll_interval := Some 10000\<rparr>)
     = Inr (constructed_accessory\<lparr>config := sample_config\<lparr>min_poll_interval := Some 10000\<rparr>\<rparr>)"
    by (simp add: constructor_sample normalize_poll_interval_def)
  then have c4: "constructor 200000 sample_config = Inr constructed_accessory"
    by (simp add: sample_config_def constructed_accessory_def new_accessory_def)
  have f: "getStateInProgress constructed_accessory"
    "sent constructed_accessory
       = [Request ''http://192.169.1.10/sys'' ''GET'' None,
          Request ''http://192.169.1.10/tstat'' ''GET'' None,
          Request ''http://192.169.1.10/tstat/humidity'' ''GET'' None]"
    by (simp_all add: constructed_accessory_def)
  have m: "min_poll_interval sample_config = Some 10000"
    by (simp add: sample_config_def)
  have p: "performs [(GetModel, ?e)] a = Some (snd (onGetModel ?e a))" for a
    by simp
  from constructor_poll_interval [OF c1] have w1:
    "\<exists>i. min_poll_interval
              (config (constructed_accessory\<lparr>config := sample_config\<lparr>min_poll_interval := Some 3000\<rparr>\<rparr>))
            = Some i \<and> i = 3000"
    by simp
  from constructor_poll_interval [OF c2] have w2:
    "\<exists>i. min_poll_interval
              (config (constructed_accessory\<lparr>config := sample_config\<lparr>min_poll_interval := Some 5000\<rparr>\<rparr>))
            = Some i \<and> i = 5000"
    by simp
  from constructor_poll_interval [OF c3] have w3:
    "\<exists>i. min_poll_interval
              (config (constructed_accessory\<lparr>config := sample_config\<lparr>min_poll_interval := Some 15000\<rparr>\<rparr>))
            = Some i \<and> i = 15000"
    by simp
  from constructor_poll_interval [OF c4] obtain i where
    i: "min_poll_interval (config constructed_accessory) = Some i" "3000 \<le> i" "i \<le> 15000"
    and j: "\<forall>x. min_poll_interval sample_config = Some x \<longrightarrow>
                  (x < 3000 \<longrightarrow> i = 3000) \<and> (15000 < x \<longrightarrow> i = 15000)
                  \<and> (3000 \<le> x \<and> x \<le> 15000 \<longrightarrow> i = x)"
    and k: "\<forall>ops a'. performs ops constructed_accessory = Some a'
              \<longrightarrow> min_poll_interval (config a') = Some i"
    and l: "\<forall>e ops a'. performs ops (startup 200000 e constructed_accessory) = Some a'
              \<longrightarrow> min_poll_interval (config a') = Some i"
    by blast
  from j m have "i = 10000" by simp
  moreover from k p have "min_poll_interval
       (config (snd (onGetModel ?e constructed_accessory))) = Some i"
    by blast
  moreover from l p have "min_poll_interval
       (config (snd (onGetModel ?e (startup 200000 ?e constructed_accessory)))) = Some i"
    by blast
  ultimately have w4: "\<exists>i. min_poll_interval (config constructed_accessory) = Some i
          \<and> 3000 \<le> i \<and> i \<le> 15000 \<and> i = 10000
          \<and> min_poll_interval (config (snd (onGetModel ?e constructed_accessory))) = Some i
          \<and> min_poll_interval
                (config (snd (onGetModel ?e (startup 200000 ?e constructed_accessory)))) = Some i"
    using i by blast
  from c1 c2 c3 c4 f w1 w2 w3 w4 show ?thesis by blast
qed

section \<open>Temperature conversion: the round trip\<close>

subsection \<open>The error of one rounding\<close>

lemma rne_error: "\<bar>of_int (rne z) - z\<bar> \<le> 1 / 2"
proof -
  have "of_int \<lfloor>z\<rfloor> \<le> z" "z < of_int \<lfloor>z\<rfloor> + 1" by linarith+
  then show ?thesis by (auto simp: rne_def Let_def)
qed

lemma exponent_bounds:
  assumes "y \<noteq> 0"
  shows "(2::real) powi exponent y \<le> \<bar>y\<bar> \<and> \<bar>y\<bar> < (2::real) powi (exponent y + 1)"
proof (cases "1 \<le> \<bar>y\<bar>")
  case True
  let ?n = "\<lfloor>\<bar>y\<bar>\<rfloor>"
  from True have n: "0 < ?n" by linarith
  from bitlen_bounds [OF n] have lo: "2 ^ nat (bitlen ?n - 1) \<le> ?n" and hi: "?n < 2 ^ nat (bitlen ?n)"
    by simp_all
  from n have k: "1 \<le> bitlen ?n" by (simp add: bitlen_alt_def)
  have e: "exponent y = bitlen ?n - 1" using True by (simp add: exponent_def)
  have "(2::real) powi exponent y = (2::real) ^ nat (bitlen ?n - 1)"
    using k by (simp add: e power_int_def)
  also have "\<dots> \<le> real_of_int ?n" using lo by (metis of_int_le_iff of_int_numeral of_int_power)
  also have "\<dots> \<le> \<bar>y\<bar>" by linarith
  finally have l: "(2::real) powi exponent y \<le> \<bar>y\<bar>" .
  from hi have "?n + 1 \<le> 2 ^ nat (bitlen ?n)" by simp
  then have A: "real_of_int (?n + 1) \<le> 2 ^ nat (bitlen ?n)"
    by (metis of_int_le_iff of_int_numeral of_int_power)
  have B: "\<bar>y\<bar> < real_of_int (?n + 1)" by linarith
  have C: "(2::real) powi (exponent y + 1) = (2::real) ^ nat (bitlen ?n)"
    using k by (simp add: e power_int_def)
  from A B have "\<bar>y\<bar> < (2::real) powi (exponent y + 1)" unfolding C by linarith
  with l show ?thesis by simp
next
  case False
  let ?m = "\<bar>y\<bar>"
  let ?c = "\<lceil>1 / ?m\<rceil>"
  let ?n = "?c - 1"
  from assms False have m: "0 < ?m" "?m < 1" by simp_all
  then have z: "1 < 1 / ?m" by simp
  then have c: "2 \<le> ?c" by linarith
  then have n: "0 < ?n" by simp
  let ?k = "bitlen ?n"
  from bitlen_bounds [OF n] have lo: "2 ^ nat (?k - 1) \<le> ?n" and hi: "?n < 2 ^ nat ?k"
    by simp_all
  from n have k: "1 \<le> ?k" by (simp add: bitlen_alt_def)
  have e: "exponent y = - ?k" using False by (simp add: exponent_def)
  have "1 / ?m \<le> real_of_int ?c" by linarith
  also from hi have "?c \<le> 2 ^ nat ?k" by simp
  then have "real_of_int ?c \<le> (2::real) ^ nat ?k" by (metis of_int_le_iff of_int_numeral of_int_power)
  finally have "1 / ?m \<le> (2::real) ^ nat ?k" .
  with m have "1 \<le> (2::real) ^ nat ?k * ?m" by (simp add: field_simps)
  then have "1 / (2::real) ^ nat ?k \<le> ?m" by (simp add: field_simps)
  moreover have "(2::real) powi exponent y = 1 / (2::real) ^ nat ?k"
    using k by (simp add: e power_int_def field_simps)
  ultimately have l: "(2::real) powi exponent y \<le> ?m" by linarith
  have "real_of_int ?n < 1 / ?m" by linarith
  moreover from lo have "(2::real) ^ nat (?k - 1) \<le> real_of_int ?n"
    by (metis of_int_le_iff of_int_numeral of_int_power)
  ultimately have "(2::real) ^ nat (?k - 1) < 1 / ?m" by linarith
  with m have "(2::real) ^ nat (?k - 1) * ?m < 1" by (simp add: field_simps)
  then have "?m < 1 / (2::real) ^ nat (?k - 1)" by (simp add: field_simps)
  moreover have "(2::real) powi (exponent y + 1) = 1 / (2::real) ^ nat (?k - 1)"
  proof (cases "?k = 1")
    case True
    then show ?thesis by (simp add: e)
  next
    case False
    with k have "- ?k + 1 < 0" by simp
    then show ?thesis by (simp add: e power_int_def field_simps)
  qed
  ultimately have "?m < (2::real) powi (exponent y + 1)" by linarith
  with l show ?thesis by simp
qed


lemma pow2_pos [simp]: "0 < (2::real) powi k"
  by (simp add: power_int_def)

lemma pow2_mono: "j \<le> k \<Longrightarrow> (2::real) powi j \<le> 2 powi k"
  by (rule power_int_increasing) simp_all

lemma pow2_diff: "(2::real) powi (j - k) = 2 powi j / 2 powi k"
  by (simp add: power_int_diff)

lemma exponent_unique:
  assumes "(2::real) powi e \<le> \<bar>y\<bar>" and "\<bar>y\<bar> < 2 powi (e + 1)"
  shows "exponent y = e"
proof -
  have "\<not> (2::real) powi e \<le> 0" by (simp add: not_le)
  with assms(1) have "y \<noteq> 0" by auto
  from exponent_bounds [OF this] have b: "(2::real) powi exponent y \<le> \<bar>y\<bar>"
    "\<bar>y\<bar> < 2 powi (exponent y + 1)" by simp_all
  have "\<not> e < exponent y"
  proof
    assume "e < exponent y"
    then have "(2::real) powi (e + 1) \<le> 2 powi exponent y" by (intro pow2_mono) simp
    with b(1) assms(2) show False by linarith
  qed
  moreover have "\<not> exponent y < e"
  proof
    assume "exponent y < e"
    then have "(2::real) powi (exponent y + 1) \<le> 2 powi e" by (intro pow2_mono) simp
    with b(2) assms(1) show False by linarith
  qed
  ultimately show ?thesis by simp
qed

lemma rounded_error:
  assumes "0 < q"
  shows "\<bar>of_int (rne (y / q)) * q - y\<bar> \<le> q / 2"
proof -
  have "of_int (rne (y / q)) * q - y = (of_int (rne (y / q)) - y / q) * q"
    using assms by (simp add: field_simps)
  then have "\<bar>of_int (rne (y / q)) * q - y\<bar> = \<bar>of_int (rne (y / q)) - y / q\<bar> * q"
    using assms by (simp add: abs_mult)
  also have "\<dots> \<le> (1 / 2) * q"
    using rne_error [of "y / q"] assms by (intro mult_right_mono) simp_all
  finally show ?thesis by simp
qed

lemma quantum_bound:
  assumes "y \<noteq> 0"
  shows "(2::real) powi (max (exponent y) (- 1022) - 52) \<le> \<bar>y\<bar> / 2 ^ 52 + 1 / 2 ^ 1074"
proof (cases "- 1022 \<le> exponent y")
  case True
  then have "(2::real) powi (max (exponent y) (- 1022) - 52) = 2 powi exponent y / 2 ^ 52"
    by (simp add: pow2_diff max_def)
  also have "\<dots> \<le> \<bar>y\<bar> / 2 ^ 52"
    using exponent_bounds [OF assms] by (simp add: divide_right_mono)
  also have "\<dots> \<le> \<bar>y\<bar> / 2 ^ 52 + 1 / 2 ^ 1074" by simp
  finally show ?thesis .
next
  case False
  then have "max (exponent y) (- 1022) - 52 = - 1074" by simp
  then have "(2::real) powi (max (exponent y) (- 1022) - 52) = 1 / 2 ^ 1074"
    by (simp add: power_int_minus inverse_eq_divide)
  also have "\<dots> \<le> \<bar>y\<bar> / 2 ^ 52 + 1 / 2 ^ 1074" by simp
  finally show ?thesis .
qed

lemma binary64_finite:
  assumes "\<bar>y\<bar> \<le> 2 ^ 1023"
  shows "\<exists>v. binary64 y = Finite v \<and> \<bar>v - y\<bar> \<le> \<bar>y\<bar> / 2 ^ 53 + 1 / 2 ^ 1075"
proof (cases "y = 0")
  case True
  then show ?thesis by (simp add: binary64_def)
next
  case False
  let ?q = "(2::real) powi (max (exponent y) (- 1022) - 52)"
  let ?v = "of_int (rne (y / ?q)) * ?q"
  have q: "0 < ?q" by simp
  from rounded_error [OF q, of y] have e: "\<bar>?v - y\<bar> \<le> ?q / 2" .
  from quantum_bound [OF False] have "?q / 2 \<le> (\<bar>y\<bar> / 2 ^ 52 + 1 / 2 ^ 1074) / 2" by simp
  also have "\<dots> = \<bar>y\<bar> / 2 ^ 53 + 1 / 2 ^ 1075" by simp
  finally have b: "?q / 2 \<le> \<bar>y\<bar> / 2 ^ 53 + 1 / 2 ^ 1075" .
  have "\<bar>?v\<bar> \<le> \<bar>y\<bar> + \<bar>?v - y\<bar>" by linarith
  also have "\<dots> \<le> \<bar>y\<bar> + (\<bar>y\<bar> / 2 ^ 53 + 1 / 2 ^ 1075)" using e b by linarith
  also have "\<dots> < 2 ^ 1024" using assms by simp
  finally have "\<bar>?v\<bar> < 2 powi 1024" by simp
  then have "binary64 y = Finite ?v" using False by (simp add: binary64_def Let_def)
  with e b show ?thesis by (intro exI [of _ ?v]) simp
qed

subsection \<open>The error of a conversion\<close>

lemma affine_close:
  assumes "\<bar>f a\<bar> \<le> 2 ^ 1023"
  shows "\<exists>v. affine f (Finite a) = Finite v \<and> \<bar>v - f a\<bar> \<le> (\<bar>f a\<bar> + 1) / 2 ^ 53"
proof -
  from binary64_finite [OF assms] obtain v where
    v: "binary64 (f a) = Finite v" "\<bar>v - f a\<bar> \<le> \<bar>f a\<bar> / 2 ^ 53 + 1 / 2 ^ 1075"
    by blast
  have "(1::real) / 2 ^ 1075 \<le> 1 / 2 ^ 53" by simp
  with v(2) have "\<bar>v - f a\<bar> \<le> \<bar>f a\<bar> / 2 ^ 53 + 1 / 2 ^ 53" by linarith
  then have "\<bar>v - f a\<bar> \<le> (\<bar>f a\<bar> + 1) / 2 ^ 53" by (simp add: add_divide_distrib)
  with v(1) show ?thesis by (simp add: affine_def)
qed

lemma fahrenheitToCelsius64_close:
  assumes "\<bar>x\<bar> + 32 \<le> m" and "m \<le> 2 ^ 1010"
  shows "\<exists>c. fahrenheitToCelsius64 (Finite x) = Finite c
           \<and> \<bar>c - (x - 32) * 5 / 9\<bar> \<le> 2 * m / 2 ^ 53 \<and> \<bar>c\<bar> \<le> m"
proof -
  have p: "(2::real) ^ 53 = 9007199254740992" by simp
  have m: "32 \<le> m" "\<bar>x - 32\<bar> \<le> m" using assms(1) by linarith+
  have big: "16 * m \<le> 2 ^ 1023" using assms(2) by simp
  have "\<bar>x - 32\<bar> \<le> 2 ^ 1023" using m big by linarith
  from affine_close [of "\<lambda>v. v - 32" x, OF this] obtain v1 where
    v1: "affine (\<lambda>v. v - 32) (Finite x) = Finite v1" "\<bar>v1 - (x - 32)\<bar> \<le> (\<bar>x - 32\<bar> + 1) / 2 ^ 53"
    by blast
  have b1: "\<bar>v1 - (x - 32)\<bar> \<le> 33 * m / 32 / 2 ^ 53" using v1(2) m unfolding p by argo
  then have a1: "\<bar>v1\<bar> \<le> 33 * m / 32" using m unfolding p by argo
  have "\<bar>v1 * 5\<bar> \<le> 2 ^ 1023" using a1 big by linarith
  from affine_close [of "\<lambda>v. v * 5" v1, OF this] obtain v2 where
    v2: "affine (\<lambda>v. v * 5) (Finite v1) = Finite v2" "\<bar>v2 - v1 * 5\<bar> \<le> (\<bar>v1 * 5\<bar> + 1) / 2 ^ 53"
    by blast
  have b2: "\<bar>v2 - (x - 32) * 5\<bar> \<le> 11 * m / 2 ^ 53"
    using v2(2) b1 a1 m unfolding p by argo
  then have a2: "\<bar>v2\<bar> \<le> 6 * m" using m unfolding p by argo
  have "\<bar>v2 / 9\<bar> \<le> 2 ^ 1023" using a2 big by linarith
  from affine_close [of "\<lambda>v. v / 9" v2, OF this] obtain v3 where
    v3: "affine (\<lambda>v. v / 9) (Finite v2) = Finite v3" "\<bar>v3 - v2 / 9\<bar> \<le> (\<bar>v2 / 9\<bar> + 1) / 2 ^ 53"
    by blast
  have b3: "\<bar>v3 - (x - 32) * 5 / 9\<bar> \<le> 2 * m / 2 ^ 53 \<and> \<bar>v3\<bar> \<le> m"
    using v3(2) b2 a2 m unfolding p by argo
  from v1(1) v2(1) v3(1) have "fahrenheitToCelsius64 (Finite x) = Finite v3"
    by (simp add: fahrenheitToCelsius64_def)
  with b3 show ?thesis by blast
qed


lemma celsiusToFahrenheit64_close:
  assumes "\<bar>c\<bar> \<le> m" and "32 \<le> m" and "m \<le> 2 ^ 1010"
  shows "\<exists>f. celsiusToFahrenheit64 (Finite c) = Finite f
           \<and> \<bar>f - (c * 9 / 5 + 32)\<bar> \<le> 9 * m / 2 ^ 53"
proof -
  have p: "(2::real) ^ 53 = 9007199254740992" by simp
  have big: "16 * m \<le> 2 ^ 1023" using assms(3) by simp
  have "\<bar>c * 9\<bar> \<le> 2 ^ 1023" using assms(1) big by linarith
  from affine_close [of "\<lambda>v. v * 9" c, OF this] obtain v1 where
    v1: "affine (\<lambda>v. v * 9) (Finite c) = Finite v1" "\<bar>v1 - c * 9\<bar> \<le> (\<bar>c * 9\<bar> + 1) / 2 ^ 53"
    by blast
  have b1: "\<bar>v1 - c * 9\<bar> \<le> 10 * m / 2 ^ 53" using v1(2) assms(1,2) unfolding p by argo
  then have a1: "\<bar>v1\<bar> \<le> 10 * m" using assms(1,2) unfolding p by argo
  have "\<bar>v1 / 5\<bar> \<le> 2 ^ 1023" using a1 big by linarith
  from affine_close [of "\<lambda>v. v / 5" v1, OF this] obtain v2 where
    v2: "affine (\<lambda>v. v / 5) (Finite v1) = Finite v2" "\<bar>v2 - v1 / 5\<bar> \<le> (\<bar>v1 / 5\<bar> + 1) / 2 ^ 53"
    by blast
  have b2: "\<bar>v2 - c * 9 / 5\<bar> \<le> 5 * m / 2 ^ 53"
    using v2(2) b1 a1 assms(1,2) unfolding p by argo
  then have a2: "\<bar>v2\<bar> \<le> 2 * m" using assms(1,2) unfolding p by argo
  have "\<bar>v2 + 32\<bar> \<le> 2 ^ 1023" using a2 assms(2) big by linarith
  from affine_close [of "\<lambda>v. v + 32" v2, OF this] obtain v3 where
    v3: "affine (\<lambda>v. v + 32) (Finite v2) = Finite v3"
      "\<bar>v3 - (v2 + 32)\<bar> \<le> (\<bar>v2 + 32\<bar> + 1) / 2 ^ 53"
    by blast
  have b3: "\<bar>v3 - (c * 9 / 5 + 32)\<bar> \<le> 9 * m / 2 ^ 53"
    using v3(2) b2 a2 assms(1,2) unfolding p by argo
  from v1(1) v2(1) v3(1) have "celsiusToFahrenheit64 (Finite c) = Finite v3"
    by (simp add: celsiusToFahrenheit64_def)
  with b3 show ?thesis by blast
qed

lemma round_trip64_close:
  assumes "\<bar>x\<bar> \<le> 2 ^ 1000"
  shows "\<exists>r. celsiusToFahrenheit64 (fahrenheitToCelsius64 (Finite x)) = Finite r
           \<and> \<bar>r - x\<bar> \<le> (\<bar>x\<bar> + 32) / 2 ^ 49"
proof -
  let ?m = "\<bar>x\<bar> + 32"
  have p: "(2::real) ^ 53 = 9007199254740992" "(2::real) ^ 49 = 562949953421312" by simp_all
  have "(2::real) ^ 1000 + 32 \<le> 2 ^ 1010" by simp
  with assms have m: "?m \<le> 2 ^ 1010" "32 \<le> ?m" by linarith+
  from fahrenheitToCelsius64_close [OF order_refl m(1)] obtain c where
    c: "fahrenheitToCelsius64 (Finite x) = Finite c"
       "\<bar>c - (x - 32) * 5 / 9\<bar> \<le> 2 * ?m / 2 ^ 53" "\<bar>c\<bar> \<le> ?m"
    by blast
  from celsiusToFahrenheit64_close [OF c(3) m(2) m(1)] obtain r where
    r: "celsiusToFahrenheit64 (Finite c) = Finite r" "\<bar>r - (c * 9 / 5 + 32)\<bar> \<le> 9 * ?m / 2 ^ 53"
    by blast
  have "\<bar>r - x\<bar> \<le> (\<bar>x\<bar> + 32) / 2 ^ 49"
    using c(2) r(2) unfolding p by argo
  with c(1) r(1) show ?thesis by simp
qed

lemma binary64_overflow:
  assumes "2 ^ 1024 \<le> y"
  shows "binary64 y = PosInf"
proof -
  from assms have pos: "0 < y" "y \<noteq> 0"
    using zero_less_power [of "2::real" 1024] by linarith+
  have y: "\<bar>y\<bar> = y" using pos by simp
  from exponent_bounds [OF pos(2)] have b: "(2::real) powi exponent y \<le> y"
    "y < 2 powi (exponent y + 1)" by (simp_all add: y)
  have e: "1024 \<le> exponent y"
  proof (rule ccontr)
    assume "\<not> 1024 \<le> exponent y"
    then have "(2::real) powi (exponent y + 1) \<le> 2 powi 1024" by (intro pow2_mono) simp
    with b(2) assms show False by simp
  qed
  then have m: "max (exponent y) (- 1022) = exponent y" by simp
  let ?q = "(2::real) powi (exponent y - 52)"
  have q: "0 < ?q" by simp
  have q52: "?q * 2 ^ 52 = 2 powi exponent y" by (simp add: pow2_diff)
  with b(1) have "2 ^ 52 * ?q \<le> y" by (simp add: mult.commute)
  with q have "2 ^ 52 \<le> y / ?q" by (simp add: field_simps)
  with rne_error [of "y / ?q"] have "2 ^ 52 - 1 / 2 \<le> real_of_int (rne (y / ?q))" by linarith
  then have "real_of_int (2 ^ 52 - 1) < real_of_int (rne (y / ?q))" by simp
  then have "2 ^ 52 - 1 < rne (y / ?q)" by (simp only: of_int_less_iff)
  then have "2 ^ 52 \<le> rne (y / ?q)" by simp
  then have "real_of_int (2 ^ 52) \<le> real_of_int (rne (y / ?q))" by (simp only: of_int_le_iff)
  then have r: "2 ^ 52 \<le> real_of_int (rne (y / ?q))" by simp
  have "2 ^ 52 * ?q \<le> real_of_int (rne (y / ?q)) * ?q"
    by (rule mult_right_mono [OF r]) simp
  moreover have "2 ^ 52 * ?q = 2 powi exponent y" using q52 by (simp only: mult.commute)
  ultimately have "2 powi exponent y \<le> real_of_int (rne (y / ?q)) * ?q" by (simp only:)
  moreover have "(2::real) powi 1024 \<le> 2 powi exponent y" using e by (intro pow2_mono)
  ultimately have "2 powi 1024 \<le> \<bar>real_of_int (rne (y / ?q)) * ?q\<bar>" by linarith
  with pos m show ?thesis by (simp add: binary64_def Let_def)
qed

subsection \<open>Evaluating a conversion\<close>

lemma affine_eval:
  assumes "2 powi e \<le> \<bar>f a\<bar>" and "\<bar>f a\<bar> < 2 powi (e + 1)" and "- 1022 \<le> e" and "e \<le> 1022"
  shows "affine f (Finite a) = Finite (of_int (rne (f a / 2 powi (e - 52))) * 2 powi (e - 52))"
proof -
  have "0 < (2::real) powi e" by simp
  with assms(1) have nz: "f a \<noteq> 0" by linarith
  have "(2::real) powi (e + 1) \<le> 2 powi 1023" using assms(4) by (intro pow2_mono) simp
  with assms(2) have "\<bar>f a\<bar> \<le> 2 ^ 1023" by simp
  from binary64_finite [OF this] obtain v where v: "binary64 (f a) = Finite v" by blast
  have e: "exponent (f a) = e" by (rule exponent_unique [OF assms(1,2)])
  define w where "w = real_of_int (rne (f a / 2 powi (e - 52))) * 2 powi (e - 52)"
  have "binary64 (f a) = (if 2 powi 1024 \<le> \<bar>w\<bar> then (if 0 < f a then PosInf else NegInf)
                          else Finite w)"
    using nz assms(3) by (simp add: binary64_def Let_def e max_def w_def)
  with v have "binary64 (f a) = Finite w" by (simp split: if_splits)
  then show ?thesis by (simp add: affine_def w_def)
qed

text \<open>
  The number nearest to 0.1 is \<open>3602879701896397 / 2 ^ 55\<close>. Its round trip is
  \<open>14073748835533 / 2 ^ 47\<close>, printed \<^verbatim>\<open>0.10000000000000142\<close>: the subtraction of 32 rounds
  away the low bits of the argument.
\<close>

lemma round_trip64_tenth:
  "celsiusToFahrenheit64 (fahrenheitToCelsius64 (Finite (3602879701896397 / 36028797018963968)))
     = Finite (14073748835533 / 140737488355328)"
proof -
  have 1: "affine (\<lambda>v. v - 32) (Finite (3602879701896397 / 36028797018963968))
             = Finite (- 4489525878534963 / 140737488355328)"
    using affine_eval [of 4 "\<lambda>v. v - 32" "3602879701896397 / 36028797018963968"]
    by (simp add: rne_def Let_def)
  have 2: "affine (\<lambda>v. v * 5) (Finite (- 4489525878534963 / 140737488355328)) = Finite (- 319 / 2)"
    using affine_eval [of 7 "\<lambda>v. v * 5" "- 4489525878534963 / 140737488355328"]
    by (simp add: rne_def Let_def)
  have 3: "affine (\<lambda>v. v / 9) (Finite (- 319 / 2)) = Finite (- 2494181043630535 / 140737488355328)"
    using affine_eval [of 4 "\<lambda>v. v / 9" "- 319 / 2"]
    by (simp add: rne_def Let_def)
  have 4: "affine (\<lambda>v. v * 9) (Finite (- 2494181043630535 / 140737488355328)) = Finite (- 319 / 2)"
    using affine_eval [of 7 "\<lambda>v. v * 9" "- 2494181043630535 / 140737488355328"]
    by (simp add: rne_def Let_def)
  have 5: "affine (\<lambda>v. v / 5) (Finite (- 319 / 2)) = Finite (- 4489525878534963 / 140737488355328)"
    using affine_eval [of 4 "\<lambda>v. v / 5" "- 319 / 2"]
    by (simp add: rne_def Let_def)
  have 6: "affine (\<lambda>v. v + 32) (Finite (- 4489525878534963 / 140737488355328))
             = Finite (14073748835533 / 140737488355328)"
    using affine_eval [of "- 4" "\<lambda>v. v + 32" "- 4489525878534963 / 140737488355328"]
    by (simp add: rne_def Let_def)
  show ?thesis
    unfolding fahrenheitToCelsius64_def celsiusToFahrenheit64_def 1 2 3 4 5 6 ..
qed

text \<open>
  C9. Converting a Fahrenheit value to Celsius and back gives the value again: exactly, in
  exact arithmetic; and in the binary64 arithmetic of the code, for every \<open>x\<close> of magnitude
  at most \<open>2 ^ 1000\<close>, the round trip returns a finite number that differs from \<open>x\<close> by at
  most \<open>(\<bar>x\<bar> + 32) / 2 ^ 49\<close>.
\<close>

theorem conversion_round_trip:
  "celsiusToFahrenheit (fahrenheitToCelsius x) = x
   \<and> (\<bar>x\<bar> \<le> 2 ^ 1000 \<longrightarrow>
        (\<exists>r. celsiusToFahrenheit64 (fahrenheitToCelsius64 (Finite x)) = Finite r
           \<and> \<bar>r - x\<bar> \<le> (\<bar>x\<bar> + 32) / 2 ^ 49))"
proof -
  have "celsiusToFahrenheit (fahrenheitToCelsius x) = x"
    by (simp add: celsiusToFahrenheit_def fahrenheitToCelsius_def field_simps)
  with round_trip64_close [of x] show ?thesis by blast
qed

text \<open>
  At the number nearest to 0.1 the exact round trip returns the argument, and the binary64
  round trip returns \<^verbatim>\<open>0.10000000000000142\<close>: another number, within the bound.
\<close>

theorem conversion_round_trip_witness:
  "\<bar>3602879701896397 / 36028797018963968 :: real\<bar> \<le> 2 ^ 1000
   \<and> celsiusToFahrenheit (fahrenheitToCelsius (3602879701896397 / 36028797018963968)) = 3602879701896397 / 36028797018963968
   \<and> celsiusToFahrenheit64 (fahrenheitToCelsius64 (Finite (3602879701896397 / 36028797018963968)))
       = Finite (14073748835533 / 140737488355328)
   \<and> \<bar>14073748835533 / 140737488355328 - 3602879701896397 / 36028797018963968 :: real\<bar>
       \<le> (\<bar>3602879701896397 / 36028797018963968\<bar> + 32) / 2 ^ 49
   \<and> (14073748835533 / 140737488355328 :: real) \<noteq> 3602879701896397 / 36028797018963968"
  using conversion_round_trip [of "3602879701896397 / 36028797018963968"] round_trip64_tenth
  by simp

text \<open>
  Without the bound on \<open>x\<close> the binary64 round trip is within no tolerance of its argument:
  at \<open>2 ^ 1023\<close>, a finite number, the multiplication by 5 overflows and the round trip
  returns \<^verbatim>\<open>Infinity\<close>.
\<close>

theorem conversion_round_trip_overflows:
  "celsiusToFahrenheit64 (fahrenheitToCelsius64 (Finite (2 ^ 1023))) = PosInf"
proof -
  have "\<bar>(2::real) ^ 1023 - 32\<bar> \<le> 2 ^ 1023" by simp
  from binary64_finite [OF this] obtain v where
    v: "binary64 (2 ^ 1023 - 32) = Finite v"
       "\<bar>v - (2 ^ 1023 - 32)\<bar> \<le> \<bar>(2::real) ^ 1023 - 32\<bar> / 2 ^ 53 + 1 / 2 ^ 1075"
    by blast
  have "\<bar>(2::real) ^ 1023 - 32\<bar> / 2 ^ 53 + 1 / 2 ^ 1075 \<le> 2 ^ 1000" by simp
  with v(2) have "(2::real) ^ 1023 - 32 - 2 ^ 1000 \<le> v" by linarith
  then have "((2::real) ^ 1023 - 32 - 2 ^ 1000) * 5 \<le> v * 5" by (rule mult_right_mono) simp
  moreover have "(2::real) ^ 1024 \<le> (2 ^ 1023 - 32 - 2 ^ 1000) * 5" by simp
  ultimately have "2 ^ 1024 \<le> v * 5" by (rule order_trans [rotated])
  then have "binary64 (v * 5) = PosInf" by (rule binary64_overflow)
  with v(1) have "fahrenheitToCelsius64 (Finite (2 ^ 1023)) = PosInf"
    by (simp add: fahrenheitToCelsius64_def affine_def)
  then show ?thesis by (simp add: celsiusToFahrenheit64_def affine_def)
qed


section \<open>getState within the poll interval\<close>

text \<open>
  C3. A call of getState that finds the flag clear and the time since the last successful
  fetch at most the configured interval returns the cached reference and leaves the whole
  accessory as it was: no request is added to the trace, and the cache and the timestamp
  stay. This holds for every interval, those between 3000 and 15000 included.
\<close>

theorem getState_within_interval:
  assumes "\<not> getStateInProgress a"
    and "min_poll_interval (config a) = Some i"
    and "clock e - lastGetStateTime a \<le> i"
  shows "getState e a = Some (Inr (getStateCache a), a)"
  using assms by (simp add: getState_open getState_body_def stale_def)

theorem getState_within_interval_witness:
  "\<not> getStateInProgress (polled_accessory sample_tstat)
   \<and> min_poll_interval (config (polled_accessory sample_tstat)) = Some 10000
   \<and> clock (sample_env 110000 (Inl CommunicationFailure))
        - lastGetStateTime (polled_accessory sample_tstat) \<le> 10000
   \<and> getState (sample_env 110000 (Inl CommunicationFailure)) (polled_accessory sample_tstat)
       = Some (Inr (Some 0), polled_accessory sample_tstat)"
proof -
  let ?a = "polled_accessory sample_tstat"
  let ?e = "sample_env 110000 (Inl CommunicationFailure)"
  have g: "\<not> getStateInProgress ?a"
    by (simp add: polled_accessory_def new_accessory_def)
  have i: "min_poll_interval (config ?a) = Some 10000"
    by (simp add: polled_accessory_def new_accessory_def sample_config_def)
  have t: "clock ?e - lastGetStateTime ?a \<le> 10000"
    by (simp add: polled_accessory_def new_accessory_def sample_env_def)
  have c: "getStateCache ?a = Some 0"
    by (simp add: polled_accessory_def)
  from getState_within_interval [OF g i t] g i t c show ?thesis by simp
qed

section \<open>getState when the refresh fails\<close>

text \<open>
  C4. When getState finds the flag clear and the cache stale and the device request fails,
  it returns the failure, with the flag clear again and the cache, the stored objects and
  the timestamp as before: only the request has been added to the trace. A later call that
  finds the cache stale and whose request succeeds makes the fetched state the cached one
  and sets the timestamp to its clock reading.
\<close>

theorem getState_failed_refresh:
  assumes "\<not> getStateInProgress a"
    and "stale a (clock e)"
    and "tstat_reply e = Inl err"
  shows "getState e a
           = Some (Inl err, a\<lparr>sent := sent a @ [Request (url_of a ''/tstat'') ''GET'' None]\<rparr>)
       \<and> (\<forall>e' data. stale a (clock e') \<and> tstat_reply e' = Inr data \<longrightarrow>
            (\<exists>a2. getState e' (a\<lparr>sent := sent a @ [Request (url_of a ''/tstat'') ''GET'' None]\<rparr>)
                      = Some (Inr (getStateCache a2), a2)
                 \<and> cached a2 = Some data \<and> lastGetStateTime a2 = clock e'
                 \<and> \<not> getStateInProgress a2))"
proof -
  let ?a1 = "a\<lparr>sent := sent a @ [Request (url_of a ''/tstat'') ''GET'' None]\<rparr>"
  have "(send (a\<lparr>getStateInProgress := True\<rparr>) ''/tstat'' ''GET'' None)
          \<lparr>getStateInProgress := False\<rparr> = ?a1"
    using assms(1) by (cases a) (simp add: send_def url_of_def)
  with assms have first: "getState e a = Some (Inl err, ?a1)"
    by (simp add: getState_open getState_body_failed)
  have g1: "\<not> getStateInProgress ?a1" using assms(1) by simp
  have s1: "stale ?a1 t = stale a t" for t by (rule stale_same) simp_all
  have "\<exists>a2. getState e' ?a1 = Some (Inr (getStateCache a2), a2)
                 \<and> cached a2 = Some data \<and> lastGetStateTime a2 = clock e'
                 \<and> \<not> getStateInProgress a2"
    if "stale a (clock e')" "tstat_reply e' = Inr data" for e' data
    using that g1 s1
    by (simp add: getState_open getState_body_refreshed cached_def load_def)
  with first show ?thesis by blast
qed

theorem getState_failed_refresh_witness:
  "\<not> getStateInProgress (polled_accessory sample_tstat)
   \<and> stale (polled_accessory sample_tstat) (clock (sample_env 120000 (Inl CommunicationFailure)))
   \<and> tstat_reply (sample_env 120000 (Inl CommunicationFailure)) = Inl CommunicationFailure
   \<and> getState (sample_env 120000 (Inl CommunicationFailure)) (polled_accessory sample_tstat)
       = Some (Inl CommunicationFailure,
               (polled_accessory sample_tstat)\<lparr>sent := [tstat_request, tstat_request]\<rparr>)
   \<and> stale (polled_accessory sample_tstat) (clock (sample_env 130000 (Inr off_state)))
   \<and> tstat_reply (sample_env 130000 (Inr off_state)) = Inr off_state
   \<and> (\<exists>a2. getState (sample_env 130000 (Inr off_state))
              ((polled_accessory sample_tstat)\<lparr>sent := [tstat_request, tstat_request]\<rparr>)
             = Some (Inr (getStateCache a2), a2)
          \<and> cached a2 = Some off_state \<and> lastGetStateTime a2 = 130000
          \<and> \<not> getStateInProgress a2)"
proof -
  let ?a = "polled_accessory sample_tstat"
  let ?e = "sample_env 120000 (Inl CommunicationFailure)"
  let ?e' = "sample_env 130000 (Inr off_state)"
  have g: "\<not> getStateInProgress ?a"
    by (simp add: polled_accessory_def new_accessory_def)
  have s: "stale ?a (clock ?e)"
    by (simp add: stale_def polled_accessory_def new_accessory_def sample_config_def sample_env_def)
  have r: "tstat_reply ?e = Inl CommunicationFailure"
    by (simp add: sample_env_def)
  have s': "stale ?a (clock ?e')"
    by (simp add: stale_def polled_accessory_def new_accessory_def sample_config_def sample_env_def)
  have r': "tstat_reply ?e' = Inr off_state" and t': "clock ?e' = 130000"
    by (simp_all add: sample_env_def)
  have u: "sent ?a @ [Request (url_of ?a ''/tstat'') ''GET'' None] = [tstat_request, tstat_request]"
    by (simp add: url_of_def polled_accessory_def new_accessory_def sample_config_def
                  tstat_request_def)
  note h = getState_failed_refresh [OF g s r, unfolded u]
  from h have first: "getState ?e ?a = Some (Inl CommunicationFailure,
        ?a\<lparr>sent := [tstat_request, tstat_request]\<rparr>)"
    by blast
  from h s' r' have "\<exists>a2. getState ?e' (?a\<lparr>sent := [tstat_request, tstat_request]\<rparr>)
             = Some (Inr (getStateCache a2), a2)
          \<and> cached a2 = Some off_state \<and> lastGetStateTime a2 = clock ?e'
          \<and> \<not> getStateInProgress a2"
    by blast
  with first g s r s' r' t' show ?thesis by simp
qed

section \<open>The snapshot between refreshes\<close>

lemma getStateObject_open:
  "\<not> getStateInProgress a \<Longrightarrow>
   getStateObject e a =
     (case getState_body e a of
        (Inl err, a1) \<Rightarrow> Some (Inl err, a1)
      | (Inr state, a1) \<Rightarrow>
          (case state of
             None \<Rightarrow> Some (Inl TypeError, a1)
           | Some r \<Rightarrow>
               (case objects a1 r of
                  None \<Rightarrow> Some (Inl TypeError, a1)
                | Some data \<Rightarrow> Some (Inr (r, data), a1))))"
  by (simp add: getStateObject_def getState_open)


lemma resolveAuto_fields:
  "tstate (resolveAuto d) = tstate d" "temp (resolveAuto d) = temp d"
  "t_heat (resolveAuto d) = t_heat d" "t_cool (resolveAuto d) = t_cool d"
  "fstate (resolveAuto d) = fstate d"
  by (simp_all add: resolveAuto_def Let_def)





lemma polled_simps:
  "getStateInProgress (polled_accessory d) = False"
  "getStateCache (polled_accessory d) = Some 0"
  "objects (polled_accessory d) 0 = Some d"
  "lastGetStateTime (polled_accessory d) = 100000"
  "config (polled_accessory d) = sample_config"
  "sent (polled_accessory d) = [tstat_request]"
  by (simp_all add: polled_accessory_def new_accessory_def)

lemma sample_env_simps:
  "clock (sample_env t r) = t" "tstat_reply (sample_env t r) = r"
  "post_reply (sample_env t r) = Inr ()"
  by (simp_all add: sample_env_def)

lemma polled_stale: "stale (polled_accessory d) t = (t > 110000)"
  by (auto simp: stale_def polled_simps sample_config_def)


lemma polled_getStateObject:
  "t \<le> 110000 \<Longrightarrow>
   getStateObject (sample_env t r) (polled_accessory d) = Some (Inr (0, d), polled_accessory d)"
  by (simp add: getStateObject_open polled_simps getState_body_fresh polled_stale sample_env_simps)







section \<open>The target-mode read of an AUTO snapshot\<close>

text \<open>
  C1, the code at the failing input. A cached snapshot in AUTO mode at 55 degrees, read
  within the poll interval: the first \<^verbatim>\<open>if\<close> assigns HEAT, the \<^verbatim>\<open>else\<close> of the second
  assigns OFF over it, and OFF is what the read returns, stores in the cached object and
  posts to the device.
\<close>

theorem auto_mode_at_55_reads_off:
  "tmode (auto_state 55) = AUTO \<and> temp (auto_state 55) = 55
   \<and> onTargetHeatingCoolingStateGet (sample_env 105000 (Inl CommunicationFailure))
        (polled_accessory (auto_state 55))
       = Some (Inr OFF,
               (polled_accessory (auto_state 55))
                 \<lparr>objects := (\<lambda>r. None)(0 := Some ((auto_state 55)\<lparr>tmode := OFF\<rparr>)),
                  sent := [tstat_request,
                           Request ''http://192.169.1.10/tstat'' ''POST'' (Some (''tmode'', OFF))]\<rparr>)
   \<and> OFF \<noteq> HEAT"
proof -
  let ?a = "polled_accessory (auto_state 55)"
  have m: "tmode (auto_state 55) = AUTO" "temp (auto_state 55) = 55"
    by (simp_all add: auto_state_def AUTO_def)
  have r: "resolveAuto (auto_state 55) = (auto_state 55)\<lparr>tmode := OFF\<rparr>"
    by (simp add: resolveAuto_def auto_state_def)
  have "onTargetHeatingCoolingStateGet (sample_env 105000 (Inl CommunicationFailure)) ?a
       = Some (Inr OFF,
               ?a\<lparr>objects := (\<lambda>r. None)(0 := Some ((auto_state 55)\<lparr>tmode := OFF\<rparr>)),
                  sent := [tstat_request,
                           Request ''http://192.169.1.10/tstat'' ''POST'' (Some (''tmode'', OFF))]\<rparr>)"
    by (simp add: onTargetHeatingCoolingStateGet_def polled_getStateObject m r request_def
                  sample_env_simps send_def url_of_def)
       (simp add: polled_accessory_def new_accessory_def sample_config_def)
  with m show ?thesis by (simp add: OFF_def HEAT_def)
qed

section \<open>The model cache and the humidity read\<close>

text \<open>
  C6, the code at the failing input. The model read fetches and caches the model CT50; a
  humidity read that the device answers with 45 then stores 45 in the model field, and the
  next model read returns 45.
\<close>

theorem humidity_read_overwrites_model:
  "onGetModel (sample_env 105000 (Inl CommunicationFailure)) new_accessory
     = (Str ''CT50'', new_accessory\<lparr>model := Str ''CT50'',
           sent := [Request ''http://192.169.1.10/tstat/model'' ''GET'' None]\<rparr>)
   \<and> model (snd (onCurrentRelativeHumidityGet (sample_env 105000 (Inl CommunicationFailure))
        (new_accessory\<lparr>model := Str ''CT50''\<rparr>))) = Num 45
   \<and> fst (onGetModel (sample_env 105000 (Inl CommunicationFailure))
        (snd (onCurrentRelativeHumidityGet (sample_env 105000 (Inl CommunicationFailure))
           (new_accessory\<lparr>model := Str ''CT50''\<rparr>)))) = Num 45"
  by (simp add: onGetModel_def onCurrentRelativeHumidityGet_def request_def send_def url_of_def
                sample_env_def new_accessory_def sample_config_def)

section \<open>The target-temperature write\<close>


text \<open>
  The target-temperature write is given above with the exact conversion. The number the code
  rounds is the binary64 one; the two roundings agree whenever the exact Fahrenheit value
  is farther from every half-integer than the error of the conversion.
\<close>

lemma Math_round_stable:
  assumes "\<bar>v - y\<bar> \<le> d" and "\<forall>k::int. d < \<bar>y - (of_int k + 1 / 2)\<bar>"
  shows "Math_round v = Math_round y"
proof -
  let ?n = "\<lfloor>y + 1 / 2\<rfloor>"
  have n: "of_int ?n \<le> y + 1 / 2" "y + 1 / 2 < of_int ?n + 1" by linarith+
  have e: "y - (of_int (?n - 1) + 1 / 2) = y + 1 / 2 - of_int ?n" by simp
  from assms(2) have "d < \<bar>y - (of_int (?n - 1) + 1 / 2)\<bar>" by blast
  then have "d < \<bar>y + 1 / 2 - of_int ?n\<bar>" by (simp only: e)
  with n have lo: "d < y + 1 / 2 - of_int ?n" by linarith
  from assms(2) have "d < \<bar>y - (of_int ?n + 1 / 2)\<bar>" by blast
  with n have hi: "d < of_int ?n + 1 - (y + 1 / 2)" by linarith
  from assms(1) lo hi have "of_int ?n \<le> v + 1 / 2" "v + 1 / 2 < of_int ?n + 1" by linarith+
  then have "\<lfloor>v + 1 / 2\<rfloor> = ?n" by (simp add: floor_unique)
  then show ?thesis by (simp add: Math_round_def)
qed

lemma targetTemp_binary64:
  assumes "\<bar>c\<bar> \<le> m" and "32 \<le> m" and "m \<le> 2 ^ 1010"
    and "\<forall>k::int. 9 * m / 2 ^ 53 < \<bar>celsiusToFahrenheit c - (of_int k + 1 / 2)\<bar>"
  shows "\<exists>v. celsiusToFahrenheit64 (Finite c) = Finite v
           \<and> Math_round v = Math_round (celsiusToFahrenheit c)"
proof -
  from celsiusToFahrenheit64_close [OF assms(1-3)] obtain v where
    v: "celsiusToFahrenheit64 (Finite c) = Finite v"
       "\<bar>v - celsiusToFahrenheit c\<bar> \<le> 9 * m / 2 ^ 53"
    by (auto simp add: celsiusToFahrenheit_def)
  from Math_round_stable [OF v(2) assms(4)] v(1) show ?thesis by blast
qed

text \<open>
  Next to a half-integer they can differ: at \<^verbatim>\<open>22.499999999999996\<close>, which is
  \<open>6333186975989759 / 2 ^ 48\<close>, the binary64 conversion gives 72.5 and the code sends 73,
  where the exact value rounds to 72.
\<close>

lemma celsiusToFahrenheit64_tie:
  "celsiusToFahrenheit64 (Finite (6333186975989759 / 281474976710656)) = Finite (145 / 2)
   \<and> Math_round (145 / 2) = 73
   \<and> Math_round (celsiusToFahrenheit (6333186975989759 / 281474976710656)) = 72"
proof -
  have 1: "affine (\<lambda>v. v * 9) (Finite (6333186975989759 / 281474976710656))
             = Finite (7124835347988479 / 35184372088832)"
    using affine_eval [of 7 "\<lambda>v. v * 9" "6333186975989759 / 281474976710656"]
    by (simp add: rne_def Let_def)
  have 2: "affine (\<lambda>v. v / 5) (Finite (7124835347988479 / 35184372088832))
             = Finite (5699868278390783 / 140737488355328)"
    using affine_eval [of 5 "\<lambda>v. v / 5" "7124835347988479 / 35184372088832"]
    by (simp add: rne_def Let_def)
  have 3: "affine (\<lambda>v. v + 32) (Finite (5699868278390783 / 140737488355328)) = Finite (145 / 2)"
    using affine_eval [of 6 "\<lambda>v. v + 32" "5699868278390783 / 140737488355328"]
    by (simp add: rne_def Let_def)
  have "celsiusToFahrenheit64 (Finite (6333186975989759 / 281474976710656)) = Finite (145 / 2)"
    unfolding celsiusToFahrenheit64_def 1 2 3 ..
  then show ?thesis by (simp add: Math_round_def celsiusToFahrenheit_def)
qed


lemma getStateObject_returns:
  assumes "getStateObject e a = Some (res, a1)"
  shows "\<not> getStateInProgress a"
  using assms getStateObject_closed [of a e] by (cases "getStateInProgress a") auto

lemma getStateObject_trace:
  assumes "getStateObject e a = Some (res, a1)"
  shows "(if stale a (clock e) then sent a1 = sent a @ [Request (url_of a ''/tstat'') ''GET'' None]
          else a1 = a)
       \<and> url_of a1 uri = url_of a uri"
proof -
  have g: "\<not> getStateInProgress a" using assms by (rule getStateObject_returns)
  show ?thesis
  proof (cases "stale a (clock e)")
    case False
    with assms g show ?thesis
      by (auto simp: getStateObject_open getState_body_fresh split: option.splits)
  next
    case True
    with assms g show ?thesis
      by (cases "tstat_reply e")
         (auto simp: getStateObject_open getState_body_failed getState_body_refreshed url_of_def)
  qed
qed


lemma getState_body_post_reply:
  "getState_body (e\<lparr>post_reply := p\<rparr>) a = getState_body e a"
  by (simp add: getState_body_def Let_def)

lemma getStateObject_post_reply:
  "getStateObject (e\<lparr>post_reply := p\<rparr>) a = getStateObject e a"
  by (cases "awaitGate a") (simp_all add: getStateObject_def getState_def getState_body_post_reply)





text \<open>
  C10. When the state read of a target-temperature write returns a snapshot in HEAT or COOL
  mode and the device request of the write fails, the write still returns normally, with the
  request in the trace, and its outcome is the one it has when the request succeeds.
\<close>

theorem target_temperature_write_unawaited:
  assumes "getStateObject e a = Some (Inr (r, state), a1)"
    and "tmode state = HEAT \<or> tmode state = COOL"
    and "post_reply e = Inl err"
  shows "map_option fst (onTargetTemperatureSet c e a) = Some (Inr ())
       \<and> map_option (sent \<circ> snd) (onTargetTemperatureSet c e a)
           = Some (sent a1 @ [Request (url_of a ''/tstat'') ''POST''
                (Some (if tmode state = HEAT then ''t_heat'' else ''t_cool'',
                       Math_round (celsiusToFahrenheit c)))])
       \<and> onTargetTemperatureSet c (e\<lparr>post_reply := Inr ()\<rparr>) a = onTargetTemperatureSet c e a"
proof -
  have u: "url_of a1 ''/tstat'' = url_of a ''/tstat''"
    using getStateObject_trace [OF assms(1)] by simp
  have "onTargetTemperatureSet c (e\<lparr>post_reply := Inr ()\<rparr>) a = onTargetTemperatureSet c e a"
    by (simp add: onTargetTemperatureSet_def getStateObject_post_reply)
  with assms(1,2) u show ?thesis
    by (auto simp: onTargetTemperatureSet_def HEAT_def COOL_def)
qed

theorem target_temperature_write_unawaited_witness:
  "getStateObject (sample_env 105000 (Inl CommunicationFailure)\<lparr>post_reply := Inl CommunicationFailure\<rparr>)
       (polled_accessory sample_tstat)
     = Some (Inr (0, sample_tstat), polled_accessory sample_tstat)
   \<and> tmode sample_tstat = HEAT
   \<and> post_reply (sample_env 105000 (Inl CommunicationFailure)\<lparr>post_reply := Inl CommunicationFailure\<rparr>)
       = Inl CommunicationFailure
   \<and> map_option fst
        (onTargetTemperatureSet 21
           (sample_env 105000 (Inl CommunicationFailure)\<lparr>post_reply := Inl CommunicationFailure\<rparr>)
           (polled_accessory sample_tstat))
       = Some (Inr ())"
proof -
  let ?e = "sample_env 105000 (Inl CommunicationFailure)\<lparr>post_reply := Inl CommunicationFailure\<rparr>"
  have g: "getStateObject ?e (polled_accessory sample_tstat)
             = Some (Inr (0, sample_tstat), polled_accessory sample_tstat)"
    by (simp add: getStateObject_post_reply polled_getStateObject)
  have m: "tmode sample_tstat = HEAT" by (simp add: sample_tstat_def HEAT_def)
  then have m': "tmode sample_tstat = HEAT \<or> tmode sample_tstat = COOL" by simp
  have p: "post_reply ?e = Inl CommunicationFailure" by simp
  from target_temperature_write_unawaited [OF g m' p, of 21] g m p show ?thesis by simp
qed

section \<open>Overlapping calls of getState: one request at a time\<close>

lemma filter_update_count:
  "i < length xs \<Longrightarrow>
   length (filter P (xs[i := x])) + (if P (xs ! i) then 1 else 0)
     = length (filter P xs) + (if P x then 1 else 0)"
proof (induction xs arbitrary: i)
  case Nil
  then show ?case by simp
next
  case (Cons y ys)
  then show ?case by (cases i) auto
qed

lemma getState_gate_closed: "getStateInProgress a \<Longrightarrow> getState_gate t a = (AtGate, a)"
  by (simp add: getState_gate_def)

lemma getState_gate_stale:
  "\<not> getStateInProgress a \<Longrightarrow> stale a t \<Longrightarrow>
   getState_gate t a = (Awaiting t, send (a\<lparr>getStateInProgress := True\<rparr>) ''/tstat'' ''GET'' None)"
  by (simp add: getState_gate_def)

lemma getState_gate_fresh:
  "\<not> getStateInProgress a \<Longrightarrow> \<not> stale a t \<Longrightarrow>
   getState_gate t a = (Returned (getStateCache a), a)"
  by (simp add: getState_gate_def)

lemma getState_gate_cases:
  obtains (closed) "getStateInProgress a" "getState_gate t a = (AtGate, a)"
  | (stale) "\<not> getStateInProgress a" "stale a t"
      "getState_gate t a = (Awaiting t, send (a\<lparr>getStateInProgress := True\<rparr>) ''/tstat'' ''GET'' None)"
  | (fresh) "\<not> getStateInProgress a" "\<not> stale a t"
      "getState_gate t a = (Returned (getStateCache a), a)"
  using getState_gate_closed getState_gate_stale getState_gate_fresh by blast

text \<open>
  Run alone with the flag clear, \<^verbatim>\<open>getState\<close> is the gate step followed at once by the
  settling step (the last case of the gate step, a sleeping call, does not arise then).
\<close>

lemma getState_body_split:
  "\<not> getStateInProgress a \<Longrightarrow>
   getState_body e a =
     (case getState_gate (clock e) a of
        (Awaiting currentTime, a1) \<Rightarrow> getState_settle currentTime (tstat_reply e) a1
      | (Returned state, a1) \<Rightarrow> (Inr state, a1)
      | (t, a1) \<Rightarrow> (Inl TypeError, a1))"
  by (simp add: getState_body_def getState_gate_def request_def Let_def)

lemma getState_settle_gate: "\<not> getStateInProgress (snd (getState_settle ct reply a))"
  by (cases reply) (simp_all add: getState_settle_def Let_def)

lemma finished_not_awaiting: "\<not> awaiting (finished res)"
  by (cases res) (simp_all add: finished_def awaiting_def)

lemma step_gate_inv:
  assumes "gate_inv s"
  shows "gate_inv (step s ev)"
proof (cases ev)
  case Call
  show ?thesis
  proof (cases rule: getState_gate_cases [of "acc s" "time s"])
    case closed
    with assms Call show ?thesis by (simp add: gate_inv_def in_flight_def awaiting_def)
  next
    case stale
    with assms Call show ?thesis by (simp add: gate_inv_def in_flight_def awaiting_def)
  next
    case fresh
    with assms Call show ?thesis by (simp add: gate_inv_def in_flight_def awaiting_def)
  qed
next
  case (Wake i)
  show ?thesis
  proof (cases "i < length (tasks s) \<and> tasks s ! i = AtGate")
    case False
    with assms Wake show ?thesis by auto
  next
    case True
    then have i: "i < length (tasks s)" and t: "tasks s ! i = AtGate" by simp_all
    show ?thesis
    proof (cases rule: getState_gate_cases [of "acc s" "time s"])
      case closed
      with assms Wake i t filter_update_count [OF i, of awaiting AtGate] show ?thesis
        by (simp add: gate_inv_def in_flight_def awaiting_def)
    next
      case stale
      with assms Wake i t filter_update_count [OF i, of awaiting "Awaiting (time s)"]
      show ?thesis by (simp add: gate_inv_def in_flight_def awaiting_def)
    next
      case fresh
      with assms Wake i t filter_update_count [OF i, of awaiting "Returned (getStateCache (acc s))"]
      show ?thesis by (simp add: gate_inv_def in_flight_def awaiting_def)
    qed
  qed
next
  case (Reply i reply)
  show ?thesis
  proof (cases "i < length (tasks s) \<and> awaiting (tasks s ! i)")
    case False
    with assms Reply show ?thesis by (auto simp: awaiting_def split: task.splits)
  next
    case True
    then have i: "i < length (tasks s)" and aw: "awaiting (tasks s ! i)" by simp_all
    then obtain ct where t: "tasks s ! i = Awaiting ct"
      by (auto simp: awaiting_def split: task.splits)
    obtain res a where r: "getState_settle ct reply (acc s) = (res, a)"
      by (cases "getState_settle ct reply (acc s)")
    have g: "\<not> getStateInProgress a" using getState_settle_gate [of ct reply "acc s"] r by simp
    from filter_update_count [OF i, of awaiting "finished res"] aw
    have "length (filter awaiting ((tasks s)[i := finished res])) + 1 = in_flight s"
      by (simp add: finished_not_awaiting in_flight_def)
    with assms Reply i t r g show ?thesis
      by (simp add: gate_inv_def in_flight_def split: if_splits)
  qed
next
  case (Tick d)
  with assms show ?thesis by (auto simp: gate_inv_def in_flight_def)
qed

lemma run_snoc: "run s (es @ [ev]) = step (run s es) ev"
  by (simp add: run_def)

lemma run_gate_inv: "gate_inv s \<Longrightarrow> gate_inv (run s es)"
  by (induction es rule: rev_induct) (simp_all add: run_def step_gate_inv)

lemma step_time: "time s \<le> time (step s ev)"
  by (cases ev) (auto split: prod.splits task.splits)

lemma step_sends:
  assumes "gate_inv s" and "sent (acc (step s ev)) \<noteq> sent (acc s)"
  shows "in_flight s = 0 \<and> in_flight (step s ev) = 1"
proof -
  have g: "\<not> getStateInProgress (acc s)"
  proof
    assume c: "getStateInProgress (acc s)"
    have "sent (acc (step s ev)) = sent (acc s)"
    proof (cases ev)
      case (Reply i reply)
      then show ?thesis
        by (cases reply) (auto simp: getState_settle_def Let_def split: task.splits)
    qed (auto simp: getState_gate_closed [OF c])
    with assms(2) show False by simp
  qed
  with assms(1) have z: "in_flight s = 0" by (simp add: gate_inv_def)
  have "getStateInProgress (acc (step s ev))"
  proof (rule ccontr)
    assume n: "\<not> getStateInProgress (acc (step s ev))"
    have "sent (acc (step s ev)) = sent (acc s)"
    proof (cases ev)
      case Call
      with n g show ?thesis
        by (cases rule: getState_gate_cases [of "acc s" "time s"]) auto
    next
      case (Wake i)
      with n g show ?thesis
        by (cases rule: getState_gate_cases [of "acc s" "time s"]) auto
    next
      case (Reply i reply)
      then show ?thesis
        by (cases reply) (auto simp: getState_settle_def Let_def split: task.splits)
    next
      case (Tick d)
      then show ?thesis by simp
    qed
    with assms(2) show False by simp
  qed
  with step_gate_inv [OF assms(1), of ev] z show ?thesis by (simp add: gate_inv_def)
qed

lemma run_time: "time s \<le> time (run s es)"
proof (induction es rule: rev_induct)
  case Nil
  then show ?case by (simp add: run_def)
next
  case (snoc ev es)
  then show ?case using step_time [of "run s es" ev] by (simp add: run_snoc)
qed

lemma no_flight_not_awaiting:
  "in_flight s = 0 \<Longrightarrow> i < length (tasks s) \<Longrightarrow> \<not> awaiting (tasks s ! i)"
  by (auto simp: in_flight_def filter_empty_conv)

lemma step_in_window:
  assumes inv: "gate_inv s'"
    and open_gate: "\<not> getStateInProgress (acc s)"
    and fresh: "\<not> stale (acc s) (time s')"
    and w: "settled s s'"
  shows "settled s (step s' ev)"
proof -
  from w have a: "acc s' = acc s" by (simp add: settled_def)
  from a open_gate fresh have g: "getState_gate (time s') (acc s') = (Returned (getStateCache (acc s)), acc s)"
    by (simp add: getState_gate_fresh)
  from inv a open_gate have z: "in_flight s' = 0" by (simp add: gate_inv_def)
  show ?thesis
  proof (cases ev)
    case Call
    with w g show ?thesis by (auto simp: settled_def nth_append)
  next
    case (Wake i)
    with w g show ?thesis by (auto simp: settled_def nth_list_update)
  next
    case (Reply i reply)
    have "step s' (Reply i reply) = s'"
      using no_flight_not_awaiting [OF z, of i]
      by (auto simp: awaiting_def split: task.splits)
    with w Reply show ?thesis by simp
  next
    case (Tick d)
    with w show ?thesis by (auto simp: settled_def)
  qed
qed

lemma run_in_window:
  assumes "gate_inv s" and "\<not> getStateInProgress (acc s)" and "\<not> stale (acc s) (time (run s es))"
  shows "settled s (run s es)"
  using assms(3)
proof (induction es rule: rev_induct)
  case Nil
  then show ?case by (simp add: run_def settled_def)
next
  case (snoc ev es)
  have "time (run s es) \<le> time (run s (es @ [ev]))"
    using step_time [of "run s es" ev] by (simp add: run_snoc)
  with snoc.prems have f: "\<not> stale (acc s) (time (run s es))"
    using stale_later by blast
  from step_in_window [OF run_gate_inv [OF assms(1)] assms(2) f snoc.IH [OF f]]
  show ?case by (simp add: run_snoc)
qed

lemma reply_settles:
  assumes "gate_inv s" and "i < length (tasks s)" and "tasks s ! i = Awaiting ct"
  shows "tasks (step s (Reply i (Inr data))) ! i = Returned (getStateCache (acc (step s (Reply i (Inr data)))))
       \<and> cached (acc (step s (Reply i (Inr data)))) = Some data
       \<and> lastGetStateTime (acc (step s (Reply i (Inr data)))) = ct
       \<and> \<not> getStateInProgress (acc (step s (Reply i (Inr data))))"
  using assms(2,3)
  by (simp add: getState_settle_def Let_def finished_def cached_def load_def)

lemma new_accessory_gate:
  "getState_gate 200000 new_accessory = (Awaiting 200000, fetching_accessory)"
  by (simp add: getState_gate_def stale_def send_def url_of_def new_accessory_def
                sample_config_def fetching_accessory_def tstat_request_def)

lemma fetching_accessory_gate: "getState_gate t fetching_accessory = (AtGate, fetching_accessory)"
  by (simp add: getState_gate_def fetching_accessory_def)

lemma fetching_accessory_settle:
  "getState_settle 200000 (Inr sample_tstat) fetching_accessory = (Inr (Some 0), fetched_accessory)"
  by (simp add: getState_settle_def fetching_accessory_def fetched_accessory_def new_accessory_def)

lemma fetched_accessory_gate:
  "t \<le> 210000 \<Longrightarrow> getState_gate t fetched_accessory = (Returned (Some 0), fetched_accessory)"
  by (simp add: getState_gate_def stale_def fetched_accessory_def new_accessory_def
                sample_config_def)

lemma sample_step:
  "step idle_system Call
     = \<lparr>acc = fetching_accessory, tasks = [Awaiting 200000], time = 200000\<rparr>"
  by (simp add: idle_system_def new_accessory_gate)

lemma sample_run_1:
  "run idle_system [Call, Call]
     = \<lparr>acc = fetching_accessory, tasks = [Awaiting 200000, AtGate], time = 200000\<rparr>"
  by (simp add: run_def idle_system_def new_accessory_gate fetching_accessory_gate)

lemma sample_run_2:
  "run idle_system [Call, Call, Reply 0 (Inr sample_tstat)]
     = \<lparr>acc = fetched_accessory, tasks = [Returned (Some 0), AtGate], time = 200000\<rparr>"
  by (simp add: run_def idle_system_def new_accessory_gate fetching_accessory_gate
                fetching_accessory_settle finished_def)

lemma sample_run_3:
  "run \<lparr>acc = fetched_accessory, tasks = [Returned (Some 0), AtGate], time = 200000\<rparr>
       [Tick 500, Wake 1, Call]
     = \<lparr>acc = fetched_accessory,
        tasks = [Returned (Some 0), Returned (Some 0), Returned (Some 0)], time = 200500\<rparr>"
  by (simp add: run_def fetched_accessory_gate)

lemma step_waiting:
  assumes "getStateInProgress (acc s)"
  shows "step s Call = s\<lparr>tasks := tasks s @ [AtGate]\<rparr> \<and> step s (Wake i) = s"
proof -
  have "(tasks s)[i := AtGate] = tasks s" if "tasks s ! i = AtGate"
    using that list_update_id [of "tasks s" i] by simp
  with assms show ?thesis by (auto simp: getState_gate_closed)
qed

lemma step_fresh:
  assumes "\<not> getStateInProgress (acc s)" and "\<not> stale (acc s) (time s)"
  shows "step s Call = s\<lparr>tasks := tasks s @ [Returned (getStateCache (acc s))]\<rparr>
       \<and> (i < length (tasks s) \<and> tasks s ! i = AtGate \<longrightarrow>
            step s (Wake i) = s\<lparr>tasks := (tasks s)[i := Returned (getStateCache (acc s))]\<rparr>)"
  using assms by (simp add: getState_gate_fresh)

lemma step_refetch:
  assumes "\<not> getStateInProgress (acc s)" and "stale (acc s) (time s)"
  shows "step s Call
           = s\<lparr>acc := send ((acc s)\<lparr>getStateInProgress := True\<rparr>) ''/tstat'' ''GET'' None,
               tasks := tasks s @ [Awaiting (time s)]\<rparr>
       \<and> (i < length (tasks s) \<and> tasks s ! i = AtGate \<longrightarrow>
            step s (Wake i)
              = s\<lparr>acc := send ((acc s)\<lparr>getStateInProgress := True\<rparr>) ''/tstat'' ''GET'' None,
                  tasks := (tasks s)[i := Awaiting (time s)]\<rparr>)"
  using assms by (simp add: getState_gate_stale)

lemma step_failure:
  assumes "i < length (tasks s)" and "tasks s ! i = Awaiting ct"
  shows "step s (Reply i (Inl err))
           = s\<lparr>acc := (acc s)\<lparr>getStateInProgress := False\<rparr>, tasks := (tasks s)[i := Thrown err]\<rparr>"
  using assms by (simp add: getState_settle_def finished_def)

lemma step_ended:
  assumes "j < length (tasks (step s ev))" and "ended (tasks (step s ev) ! j)"
    and "\<not> (j < length (tasks s) \<and> ended (tasks s ! j))"
  shows "\<not> getStateInProgress (acc (step s ev))"
proof (cases ev)
  case Call
  show ?thesis
  proof (cases rule: getState_gate_cases [of "acc s" "time s"])
    case closed
    with assms Call show ?thesis by (auto simp: nth_append ended_def split: if_splits)
  next
    case stale
    with assms Call show ?thesis by (auto simp: nth_append ended_def split: if_splits)
  next
    case fresh
    with assms Call show ?thesis by simp
  qed
next
  case (Wake i)
  show ?thesis
  proof (cases "i < length (tasks s) \<and> tasks s ! i = AtGate")
    case False
    with assms Wake show ?thesis by auto
  next
    case True
    show ?thesis
    proof (cases rule: getState_gate_cases [of "acc s" "time s"])
      case closed
      with assms Wake True show ?thesis by (auto simp: nth_list_update ended_def split: if_splits)
    next
      case stale
      with assms Wake True show ?thesis by (auto simp: nth_list_update ended_def split: if_splits)
    next
      case fresh
      with assms Wake True show ?thesis by simp
    qed
  qed
next
  case (Reply i reply)
  show ?thesis
  proof (cases "i < length (tasks s) \<and> awaiting (tasks s ! i)")
    case False
    with assms Reply show ?thesis by (auto simp: awaiting_def split: task.splits)
  next
    case True
    then obtain ct where "tasks s ! i = Awaiting ct"
      by (auto simp: awaiting_def split: task.splits)
    with True Reply getState_settle_gate [of ct reply "acc s"] show ?thesis
      by (auto split: prod.splits)
  qed
next
  case (Tick d)
  with assms show ?thesis by (auto split: if_splits)
qed


lemma failed_accessory_gate:
  "getState_gate 200000 failed_accessory = (Awaiting 200000, refetching_accessory)"
  by (simp add: getState_gate_def stale_def send_def url_of_def new_accessory_def
                sample_config_def failed_accessory_def refetching_accessory_def tstat_request_def)

lemma fetching_accessory_fails:
  "getState_settle 200000 (Inl err) fetching_accessory = (Inl err, failed_accessory)"
  by (simp add: getState_settle_def fetching_accessory_def failed_accessory_def new_accessory_def)

lemma sample_run_failed:
  "run idle_system [Call, Call, Reply 0 (Inl CommunicationFailure)]
     = \<lparr>acc = failed_accessory, tasks = [Thrown CommunicationFailure, AtGate], time = 200000\<rparr>"
  by (simp add: run_def idle_system_def new_accessory_gate fetching_accessory_gate
                fetching_accessory_fails finished_def)

lemma sample_run_refetch:
  "run idle_system [Call, Call, Reply 0 (Inl CommunicationFailure), Wake 1,
                    Reply 1 (Inr sample_tstat)]
     = \<lparr>acc = fetched_accessory\<lparr>sent := [tstat_request, tstat_request]\<rparr>,
        tasks = [Thrown CommunicationFailure, Returned (Some 0)], time = 200000\<rparr>"
  by (simp add: run_def idle_system_def new_accessory_gate fetching_accessory_gate
                fetching_accessory_fails failed_accessory_gate finished_def)
     (simp add: getState_settle_def refetching_accessory_def fetched_accessory_def
                new_accessory_def)

lemma sample_run_slow:
  "run idle_system [Call, Call, Tick 10001, Reply 0 (Inr sample_tstat), Wake 1,
                    Reply 1 (Inr off_state)]
     = \<lparr>acc = fetched_accessory
               \<lparr>lastGetStateTime := 210001, getStateCache := Some 1,
                objects := (\<lambda>r. None)(0 := Some sample_tstat, 1 := Some off_state),
                nextRef := 2, sent := [tstat_request, tstat_request]\<rparr>,
        tasks = [Returned (Some 0), Returned (Some 1)], time = 210001\<rparr>"
  by (simp add: run_def idle_system_def new_accessory_gate fetching_accessory_gate
                fetching_accessory_settle finished_def)
     (simp add: getState_gate_def getState_settle_def stale_def send_def url_of_def finished_def
                fetched_accessory_def new_accessory_def sample_config_def tstat_request_def)

lemma sample_run_0: "run idle_system [] = idle_system"
  by (simp add: run_def)

lemma sample_run_call:
  "run idle_system [Call]
     = \<lparr>acc = fetching_accessory, tasks = [Awaiting 200000], time = 200000\<rparr>"
  by (simp add: run_def idle_system_def new_accessory_gate)

text \<open>
  C2, as the code has it. Take any system in which the flag is set exactly while one call
  awaits its request (a system with no call and the flag clear is one, and so is the one the
  constructor leaves), and let any events happen. Then:
  \<^item> at most one call awaits a request, and the flag is set exactly when one does; an event
    that adds a request to the trace starts from a state where no call awaits one;
  \<^item> a call that finds the flag set, on arrival or on waking, goes (back) to sleep and
    changes nothing;
  \<^item> a call that finds the flag clear and the cache not stale returns the cached reference
    and changes nothing;
  \<^item> a call that finds the flag clear and the cache stale sets the flag, sends the request
    and awaits it with the clock reading it took;
  \<^item> when the awaited request fails, the call fails with that error and clears the flag;
    the cache, the store and the timestamp stay;
  \<^item> when it is answered with a state, the call returns the reference of the object now
    cached, the timestamp is the clock reading taken before the request, and the flag is
    clear;
  \<^item> whenever a call comes to its end, no request is in flight after that step;
  \<^item> the polling window: from a state with the flag clear, as long as the cache is not
    stale at the final clock reading, the accessory does not change (no request is sent,
    the cache keeps its reference) and every call either is where it was or has returned
    that one cached reference.
\<close>

theorem getState_single_flight:
  fixes s0 :: system and es es' :: "event list"
  defines "s \<equiv> run s0 es"
  defines "s' \<equiv> run (run s0 es) es'"
  assumes "gate_inv s0"
  shows "in_flight s \<le> 1
       \<and> (getStateInProgress (acc s) \<longleftrightarrow> in_flight s = 1)
       \<and> (sent (acc (step s ev)) \<noteq> sent (acc s) \<longrightarrow> in_flight s = 0 \<and> in_flight (step s ev) = 1)
       \<and> (getStateInProgress (acc s) \<longrightarrow>
            step s Call = s\<lparr>tasks := tasks s @ [AtGate]\<rparr> \<and> step s (Wake i) = s)
       \<and> (\<not> getStateInProgress (acc s) \<and> \<not> stale (acc s) (time s) \<longrightarrow>
            step s Call = s\<lparr>tasks := tasks s @ [Returned (getStateCache (acc s))]\<rparr>
            \<and> (i < length (tasks s) \<and> tasks s ! i = AtGate \<longrightarrow>
                 step s (Wake i) = s\<lparr>tasks := (tasks s)[i := Returned (getStateCache (acc s))]\<rparr>))
       \<and> (\<not> getStateInProgress (acc s) \<and> stale (acc s) (time s) \<longrightarrow>
            step s Call
              = s\<lparr>acc := send ((acc s)\<lparr>getStateInProgress := True\<rparr>) ''/tstat'' ''GET'' None,
                  tasks := tasks s @ [Awaiting (time s)]\<rparr>
            \<and> (i < length (tasks s) \<and> tasks s ! i = AtGate \<longrightarrow>
                 step s (Wake i)
                   = s\<lparr>acc := send ((acc s)\<lparr>getStateInProgress := True\<rparr>) ''/tstat'' ''GET'' None,
                       tasks := (tasks s)[i := Awaiting (time s)]\<rparr>))
       \<and> (i < length (tasks s) \<and> tasks s ! i = Awaiting ct \<longrightarrow>
            step s (Reply i (Inl err))
              = s\<lparr>acc := (acc s)\<lparr>getStateInProgress := False\<rparr>,
                  tasks := (tasks s)[i := Thrown err]\<rparr>)
       \<and> (i < length (tasks s) \<and> tasks s ! i = Awaiting ct \<longrightarrow>
            tasks (step s (Reply i (Inr data))) ! i
              = Returned (getStateCache (acc (step s (Reply i (Inr data)))))
            \<and> cached (acc (step s (Reply i (Inr data)))) = Some data
            \<and> lastGetStateTime (acc (step s (Reply i (Inr data)))) = ct
            \<and> \<not> getStateInProgress (acc (step s (Reply i (Inr data)))))
       \<and> (\<forall>j. j < length (tasks (step s ev)) \<and> ended (tasks (step s ev) ! j)
                \<and> \<not> (j < length (tasks s) \<and> ended (tasks s ! j))
              \<longrightarrow> \<not> getStateInProgress (acc (step s ev)))
       \<and> (\<not> getStateInProgress (acc s) \<and> \<not> stale (acc s) (time s') \<longrightarrow>
            acc s' = acc s
            \<and> (\<forall>j < length (tasks s').
                  (j < length (tasks s) \<and> tasks s' ! j = tasks s ! j)
                  \<or> tasks s' ! j = Returned (getStateCache (acc s))))"
proof -
  have inv: "gate_inv s" unfolding s_def using assms(3) by (rule run_gate_inv)
  then have "in_flight s \<le> 1" "getStateInProgress (acc s) \<longleftrightarrow> in_flight s = 1"
    by (simp_all add: gate_inv_def)
  moreover have "sent (acc (step s ev)) \<noteq> sent (acc s) \<longrightarrow> in_flight s = 0 \<and> in_flight (step s ev) = 1"
    using step_sends [OF inv] by blast
  moreover have "getStateInProgress (acc s) \<longrightarrow>
            step s Call = s\<lparr>tasks := tasks s @ [AtGate]\<rparr> \<and> step s (Wake i) = s"
    using step_waiting by blast
  moreover have "\<not> getStateInProgress (acc s) \<and> \<not> stale (acc s) (time s) \<longrightarrow>
            step s Call = s\<lparr>tasks := tasks s @ [Returned (getStateCache (acc s))]\<rparr>
            \<and> (i < length (tasks s) \<and> tasks s ! i = AtGate \<longrightarrow>
                 step s (Wake i) = s\<lparr>tasks := (tasks s)[i := Returned (getStateCache (acc s))]\<rparr>)"
    using step_fresh by blast
  moreover have "\<not> getStateInProgress (acc s) \<and> stale (acc s) (time s) \<longrightarrow>
            step s Call
              = s\<lparr>acc := send ((acc s)\<lparr>getStateInProgress := True\<rparr>) ''/tstat'' ''GET'' None,
                  tasks := tasks s @ [Awaiting (time s)]\<rparr>
            \<and> (i < length (tasks s) \<and> tasks s ! i = AtGate \<longrightarrow>
                 step s (Wake i)
                   = s\<lparr>acc := send ((acc s)\<lparr>getStateInProgress := True\<rparr>) ''/tstat'' ''GET'' None,
                       tasks := (tasks s)[i := Awaiting (time s)]\<rparr>)"
    using step_refetch by blast
  moreover have "i < length (tasks s) \<and> tasks s ! i = Awaiting ct \<longrightarrow>
            step s (Reply i (Inl err))
              = s\<lparr>acc := (acc s)\<lparr>getStateInProgress := False\<rparr>,
                  tasks := (tasks s)[i := Thrown err]\<rparr>"
    using step_failure by blast
  moreover have "i < length (tasks s) \<and> tasks s ! i = Awaiting ct \<longrightarrow>
            tasks (step s (Reply i (Inr data))) ! i
              = Returned (getStateCache (acc (step s (Reply i (Inr data)))))
            \<and> cached (acc (step s (Reply i (Inr data)))) = Some data
            \<and> lastGetStateTime (acc (step s (Reply i (Inr data)))) = ct
            \<and> \<not> getStateInProgress (acc (step s (Reply i (Inr data))))"
    using reply_settles [OF inv] by blast
  moreover have "\<forall>j. j < length (tasks (step s ev)) \<and> ended (tasks (step s ev) ! j)
                \<and> \<not> (j < length (tasks s) \<and> ended (tasks s ! j))
              \<longrightarrow> \<not> getStateInProgress (acc (step s ev))"
    using step_ended by blast
  moreover have "\<not> getStateInProgress (acc s) \<and> \<not> stale (acc s) (time s') \<longrightarrow>
            acc s' = acc s
            \<and> (\<forall>j < length (tasks s').
                  (j < length (tasks s) \<and> tasks s' ! j = tasks s ! j)
                  \<or> tasks s' ! j = Returned (getStateCache (acc s)))"
    using run_in_window [OF inv, of es'] by (simp add: settled_def s'_def s_def)
  ultimately show ?thesis by blast
qed

theorem getState_single_flight_witness:
  "gate_inv idle_system
   \<and> \<not> getStateInProgress (acc idle_system) \<and> stale (acc idle_system) (time idle_system)
   \<and> step idle_system Call
       = \<lparr>acc = fetching_accessory, tasks = [Awaiting 200000], time = 200000\<rparr>
   \<and> sent (acc (step idle_system Call)) \<noteq> sent (acc idle_system)
   \<and> in_flight idle_system = 0 \<and> in_flight (step idle_system Call) = 1
   \<and> getStateInProgress (acc (run idle_system [Call]))
   \<and> step (run idle_system [Call]) Call
       = \<lparr>acc = fetching_accessory, tasks = [Awaiting 200000, AtGate], time = 200000\<rparr>
   \<and> step (run idle_system [Call]) (Wake 0) = run idle_system [Call]
   \<and> tasks (run idle_system [Call, Call]) = [Awaiting 200000, AtGate]
   \<and> in_flight (run idle_system [Call, Call]) = 1
   \<and> getStateInProgress (acc (run idle_system [Call, Call]))
   \<and> sent (acc (run idle_system [Call, Call])) = [tstat_request]
   \<and> step (run idle_system [Call, Call]) (Reply 0 (Inl CommunicationFailure))
       = \<lparr>acc = failed_accessory, tasks = [Thrown CommunicationFailure, AtGate], time = 200000\<rparr>
   \<and> tasks (step (run idle_system [Call, Call]) (Reply 0 (Inr sample_tstat))) ! 0
       = Returned (getStateCache (acc (step (run idle_system [Call, Call]) (Reply 0 (Inr sample_tstat)))))
   \<and> cached (acc (step (run idle_system [Call, Call]) (Reply 0 (Inr sample_tstat)))) = Some sample_tstat
   \<and> ended (tasks (step (run idle_system [Call, Call]) (Reply 0 (Inr sample_tstat))) ! 0)
   \<and> \<not> ended (tasks (run idle_system [Call, Call]) ! 0)
   \<and> \<not> getStateInProgress (acc (step (run idle_system [Call, Call]) (Reply 0 (Inr sample_tstat))))
   \<and> \<not> getStateInProgress (acc (run idle_system [Call, Call, Reply 0 (Inl CommunicationFailure)]))
   \<and> stale (acc (run idle_system [Call, Call, Reply 0 (Inl CommunicationFailure)]))
        (time (run idle_system [Call, Call, Reply 0 (Inl CommunicationFailure)]))
   \<and> tasks (run idle_system [Call, Call, Reply 0 (Inl CommunicationFailure)]) ! 1 = AtGate
   \<and> step (run idle_system [Call, Call, Reply 0 (Inl CommunicationFailure)]) (Wake 1)
       = \<lparr>acc = refetching_accessory, tasks = [Thrown CommunicationFailure, Awaiting 200000],
          time = 200000\<rparr>
   \<and> \<not> getStateInProgress (acc (run idle_system [Call, Call, Reply 0 (Inr sample_tstat)]))
   \<and> \<not> stale (acc (run idle_system [Call, Call, Reply 0 (Inr sample_tstat)]))
          (time (run idle_system [Call, Call, Reply 0 (Inr sample_tstat)]))
   \<and> step (run idle_system [Call, Call, Reply 0 (Inr sample_tstat)]) Call
       = \<lparr>acc = fetched_accessory, tasks = [Returned (Some 0), AtGate, Returned (Some 0)],
          time = 200000\<rparr>
   \<and> step (run idle_system [Call, Call, Reply 0 (Inr sample_tstat)]) (Wake 1)
       = \<lparr>acc = fetched_accessory, tasks = [Returned (Some 0), Returned (Some 0)],
          time = 200000\<rparr>
   \<and> \<not> stale (acc (run idle_system [Call, Call, Reply 0 (Inr sample_tstat)]))
          (time (run (run idle_system [Call, Call, Reply 0 (Inr sample_tstat)]) [Tick 500, Wake 1, Call]))
   \<and> acc (run (run idle_system [Call, Call, Reply 0 (Inr sample_tstat)]) [Tick 500, Wake 1, Call])
       = acc (run idle_system [Call, Call, Reply 0 (Inr sample_tstat)])
   \<and> tasks (run (run idle_system [Call, Call, Reply 0 (Inr sample_tstat)]) [Tick 500, Wake 1, Call])
       = [Returned (Some 0), Returned (Some 0), Returned (Some 0)]
   \<and> sent (acc (run (run idle_system [Call, Call, Reply 0 (Inr sample_tstat)]) [Tick 500, Wake 1, Call]))
       = [tstat_request]"
proof -
  let ?c = "run idle_system [Call]"
  let ?s1 = "run idle_system [Call, Call]"
  let ?s2 = "run idle_system [Call, Call, Reply 0 (Inr sample_tstat)]"
  let ?s3 = "run ?s2 [Tick 500, Wake 1, Call]"
  let ?s4 = "run idle_system [Call, Call, Reply 0 (Inl CommunicationFailure)]"
  have inv: "gate_inv idle_system"
    by (simp add: gate_inv_def in_flight_def idle_system_def new_accessory_def)
  have g0: "\<not> getStateInProgress (acc idle_system) \<and> stale (acc idle_system) (time idle_system)"
    by (simp add: idle_system_def new_accessory_def stale_def sample_config_def)
  have sends: "sent (acc (step idle_system Call)) \<noteq> sent (acc idle_system)"
    unfolding sample_step by (simp add: idle_system_def fetching_accessory_def new_accessory_def)
  have gc: "getStateInProgress (acc ?c)"
    unfolding sample_run_call by (simp add: fetching_accessory_def)
  have t1: "0 < length (tasks ?s1) \<and> tasks ?s1 ! 0 = Awaiting 200000"
    unfolding sample_run_1 by simp
  have g2: "\<not> getStateInProgress (acc ?s2) \<and> \<not> stale (acc ?s2) (time ?s2)"
    unfolding sample_run_2
    by (simp add: stale_def fetched_accessory_def new_accessory_def sample_config_def)
  have t2: "1 < length (tasks ?s2) \<and> tasks ?s2 ! 1 = AtGate"
    unfolding sample_run_2 by simp
  have f3: "\<not> stale (acc ?s2) (time ?s3)"
    unfolding sample_run_2 sample_run_3
    by (simp add: stale_def fetched_accessory_def new_accessory_def sample_config_def)
  have g4: "\<not> getStateInProgress (acc ?s4) \<and> stale (acc ?s4) (time ?s4)"
    unfolding sample_run_failed
    by (simp add: stale_def failed_accessory_def new_accessory_def sample_config_def)
  have t4: "1 < length (tasks ?s4) \<and> tasks ?s4 ! 1 = AtGate"
    unfolding sample_run_failed by simp
  note a = getState_single_flight [OF inv, where es = "[]" and ev = Call, unfolded sample_run_0]
  note b = getState_single_flight [OF inv, where es = "[Call]" and i = 0]
  note c = getState_single_flight [OF inv, where es = "[Call, Call]" and i = 0 and ct = 200000
             and err = CommunicationFailure and data = sample_tstat
             and ev = "Reply 0 (Inr sample_tstat)"]
  note d = getState_single_flight [OF inv, where es = "[Call, Call, Reply 0 (Inl CommunicationFailure)]"
             and i = 1]
  note e = getState_single_flight [OF inv, where es = "[Call, Call, Reply 0 (Inr sample_tstat)]"
             and i = 1 and es' = "[Tick 500, Wake 1, Call]"]
  from a sends have a1: "in_flight idle_system = 0 \<and> in_flight (step idle_system Call) = 1"
    by blast
  have a2: "step idle_system Call
       = \<lparr>acc = fetching_accessory, tasks = [Awaiting 200000], time = 200000\<rparr>"
    by (rule sample_step)
  from b gc have "step ?c Call = ?c\<lparr>tasks := tasks ?c @ [AtGate]\<rparr> \<and> step ?c (Wake 0) = ?c"
    by blast
  then have b1: "step ?c Call
       = \<lparr>acc = fetching_accessory, tasks = [Awaiting 200000, AtGate], time = 200000\<rparr>
     \<and> step ?c (Wake 0) = ?c"
    unfolding sample_run_call by simp
  from c t1 have "in_flight ?s1 = 1 \<and> getStateInProgress (acc ?s1)
     \<and> step ?s1 (Reply 0 (Inl CommunicationFailure))
         = ?s1\<lparr>acc := (acc ?s1)\<lparr>getStateInProgress := False\<rparr>,
               tasks := (tasks ?s1)[0 := Thrown CommunicationFailure]\<rparr>
     \<and> tasks (step ?s1 (Reply 0 (Inr sample_tstat))) ! 0
          = Returned (getStateCache (acc (step ?s1 (Reply 0 (Inr sample_tstat)))))
     \<and> cached (acc (step ?s1 (Reply 0 (Inr sample_tstat)))) = Some sample_tstat
     \<and> \<not> getStateInProgress (acc (step ?s1 (Reply 0 (Inr sample_tstat))))"
    unfolding sample_run_1 by (simp add: fetching_accessory_def)
  then have c1: "in_flight ?s1 = 1 \<and> getStateInProgress (acc ?s1)
     \<and> step ?s1 (Reply 0 (Inl CommunicationFailure))
         = \<lparr>acc = failed_accessory, tasks = [Thrown CommunicationFailure, AtGate], time = 200000\<rparr>
     \<and> tasks (step ?s1 (Reply 0 (Inr sample_tstat))) ! 0
          = Returned (getStateCache (acc (step ?s1 (Reply 0 (Inr sample_tstat)))))
     \<and> cached (acc (step ?s1 (Reply 0 (Inr sample_tstat)))) = Some sample_tstat
     \<and> \<not> getStateInProgress (acc (step ?s1 (Reply 0 (Inr sample_tstat))))"
    unfolding sample_run_1
    by (simp add: fetching_accessory_def failed_accessory_def new_accessory_def)
  have c2: "ended (tasks (step ?s1 (Reply 0 (Inr sample_tstat))) ! 0)
     \<and> \<not> ended (tasks ?s1 ! 0)"
    unfolding sample_run_1 by (simp add: fetching_accessory_settle finished_def ended_def)
  have c3: "tasks ?s1 = [Awaiting 200000, AtGate]" "sent (acc ?s1) = [tstat_request]"
    unfolding sample_run_1 by (simp_all add: fetching_accessory_def)
  from d g4 t4 have "step ?s4 (Wake 1)
       = ?s4\<lparr>acc := send ((acc ?s4)\<lparr>getStateInProgress := True\<rparr>) ''/tstat'' ''GET'' None,
             tasks := (tasks ?s4)[1 := Awaiting (time ?s4)]\<rparr>"
    by blast
  then have d1: "step ?s4 (Wake 1)
       = \<lparr>acc = refetching_accessory, tasks = [Thrown CommunicationFailure, Awaiting 200000],
          time = 200000\<rparr>"
    unfolding sample_run_failed
    by (simp add: send_def url_of_def failed_accessory_def refetching_accessory_def
                  new_accessory_def sample_config_def tstat_request_def)
  from e g2 t2 have "step ?s2 Call = ?s2\<lparr>tasks := tasks ?s2 @ [Returned (getStateCache (acc ?s2))]\<rparr>
     \<and> step ?s2 (Wake 1) = ?s2\<lparr>tasks := (tasks ?s2)[1 := Returned (getStateCache (acc ?s2))]\<rparr>"
    by blast
  then have e1: "step ?s2 Call
       = \<lparr>acc = fetched_accessory, tasks = [Returned (Some 0), AtGate, Returned (Some 0)],
          time = 200000\<rparr>
     \<and> step ?s2 (Wake 1)
       = \<lparr>acc = fetched_accessory, tasks = [Returned (Some 0), Returned (Some 0)],
          time = 200000\<rparr>"
    unfolding sample_run_2 by (simp add: fetched_accessory_def)
  from e g2 f3 have e2: "acc ?s3 = acc ?s2" by blast
  have e3: "tasks ?s3 = [Returned (Some 0), Returned (Some 0), Returned (Some 0)]"
    "sent (acc ?s3) = [tstat_request]"
    unfolding sample_run_2 sample_run_3 by (simp_all add: fetched_accessory_def)
  from inv g0 a2 sends a1 gc b1 c3 c1 c2 g4 t4 d1 g2 e1 f3 e2 e3 show ?thesis
    by simp
qed

text \<open>
  C2 as stated fails for calls that overlap a refresh. Two calls are made at the same
  instant; the second sleeps while the first awaits its request. In the first run the reply
  takes longer than the poll interval: when the sleeper wakes the cache is stale again, it
  sends a second request and returns another object than the first call. In the second run
  the request of the first call fails at once: the first call fails, the sleeper sends a
  second request and returns a snapshot, with no time passed at all.
\<close>

theorem overlapping_calls_differ:
  "tasks (run idle_system [Call, Call]) = [Awaiting 200000, AtGate]
   \<and> tasks (run idle_system [Call, Call, Tick 10001, Reply 0 (Inr sample_tstat), Wake 1,
                              Reply 1 (Inr off_state)])
       = [Returned (Some 0), Returned (Some 1)]
   \<and> sent (acc (run idle_system [Call, Call, Tick 10001, Reply 0 (Inr sample_tstat), Wake 1,
                                  Reply 1 (Inr off_state)]))
       = [tstat_request, tstat_request]
   \<and> objects (acc (run idle_system [Call, Call, Tick 10001, Reply 0 (Inr sample_tstat), Wake 1,
                                     Reply 1 (Inr off_state)])) 0 = Some sample_tstat
   \<and> objects (acc (run idle_system [Call, Call, Tick 10001, Reply 0 (Inr sample_tstat), Wake 1,
                                     Reply 1 (Inr off_state)])) 1 = Some off_state
   \<and> sample_tstat \<noteq> off_state
   \<and> tasks (run idle_system [Call, Call, Reply 0 (Inl CommunicationFailure), Wake 1,
                              Reply 1 (Inr sample_tstat)])
       = [Thrown CommunicationFailure, Returned (Some 0)]
   \<and> sent (acc (run idle_system [Call, Call, Reply 0 (Inl CommunicationFailure), Wake 1,
                                  Reply 1 (Inr sample_tstat)]))
       = [tstat_request, tstat_request]
   \<and> time (run idle_system [Call, Call, Reply 0 (Inl CommunicationFailure), Wake 1,
                             Reply 1 (Inr sample_tstat)])
       = time idle_system"
  unfolding sample_run_1 sample_run_slow sample_run_refetch
  by (simp add: fetched_accessory_def idle_system_def sample_tstat_def off_state_def)

end
